theory Spec2Isabelle
  imports Main "HOL-Library.AList" "HOL-Library.Sublist" "HOL-Library.Multiset"
begin

text \<open>
  The event bus of VouchAI (src/communication/EventBus.ts): agents publish
  events as JSON files into a pending directory; every agent polls that
  directory, runs its handlers on the events it has not processed yet, marks
  them with its id, and the third agent to do so moves the file to the
  processed directory. The functions of the model are sequential: one call of
  \<^verbatim>\<open>publish\<close> or \<^verbatim>\<open>processEvent\<close> runs from start to end on the two
  directories. The timer of \<^verbatim>\<open>startPolling\<close> does not wait for a poll cycle to
  finish before it starts the next, so a cycle is also taken in its two parts,
  the reading of the files and the loop over the events that were read: the
  loop of one cycle may run on directories that other cycles have changed
  since the files were read.
\<close>

section \<open>The event record (communication/events.ts)\<close>

datatype EventType =
  JOB_CREATED | JOB_ACCEPTED | WORK_SUBMITTED | WORK_APPROVED
  | DISPUTE_FILED | ARBITRATION_COMPLETE | PAYMENT_RELEASED

datatype AgentType = hiring | worker | arbitrator

datatype EventStatus = pending | processed

text \<open>
  A payload is \<^verbatim>\<open>Record<string, any>\<close>; the bus never looks inside it. Its
  values are kept as a small JSON-like type.
\<close>

datatype jvalue = JString string | JNumber int | JBool bool | JNull

type_synonym payload = "(string \<times> jvalue) list"

text \<open>
  \<^verbatim>\<open>poll\<close> casts whatever \<^verbatim>\<open>JSON.parse\<close> returns to \<^verbatim>\<open>BaseEvent\<close>
  without checking it. The field whose shape decides the control flow of
  \<^verbatim>\<open>processEvent\<close> is \<^verbatim>\<open>processedBy\<close>, so the model keeps the three shapes
  that behave differently under \<^verbatim>\<open>.includes\<close>, \<^verbatim>\<open>.push\<close> and \<^verbatim>\<open>.length\<close>:
  an array of strings; a string (which has \<^verbatim>\<open>includes\<close>, the substring test,
  but no \<^verbatim>\<open>push\<close>); anything else, the missing field included (no
  \<^verbatim>\<open>includes\<close> at all). The other fields are typed as events.ts declares
  them. \<^verbatim>\<open>timestamp\<close> is held as the number \<^verbatim>\<open>new Date(timestamp).getTime()\<close>
  yields, the only way the bus reads it. The fields \<^verbatim>\<open>id\<close> and \<^verbatim>\<open>type\<close> are
  \<open>eventId\<close> and \<open>eventType\<close> here (\<open>id\<close> is the identity function of HOL).
\<close>

datatype processedByField = PBArray "string list" | PBString string | PBOther

record BaseEvent =
  eventId :: string
  eventType :: EventType
  timestamp :: int
  sourceAgent :: AgentType
  targetAgent :: "AgentType option"
  payload :: payload
  processedBy :: processedByField
  status :: EventStatus

section \<open>The two directories\<close>

text \<open>
  The text of a file is represented by what \<^verbatim>\<open>JSON.parse\<close> makes of it: a text
  it rejects (kept as it is), or the value it returns. That value is
  \<^verbatim>\<open>null\<close>, on which reading any field throws a TypeError, or it is read as
  an event. \<^verbatim>\<open>JSON.stringify\<close> of a parsed event gives a text that parses
  back to the same event. Every event of the model has a \<^verbatim>\<open>timestamp\<close> that
  is a date: for a value without one (an object without the field, a number,
  a string) the comparator of \<^verbatim>\<open>poll\<close> returns NaN, and the order in which
  \<^verbatim>\<open>Array.prototype.sort\<close> then leaves the events is not fixed by the
  language; what is proved of the loop over the events (\<open>processAll\<close>) holds
  for the events in any order.
\<close>

datatype content = Garbled string | JsonNull | Json BaseEvent

text \<open>
  A directory is the list of its entries, in the order \<^verbatim>\<open>fs.readdir\<close> returns
  them. File names are plain names (an event id is used as one, as the ids of
  \<^verbatim>\<open>generateEventId\<close> are), so \<^verbatim>\<open>path.join(dir, name)\<close> is the entry
  \<open>name\<close> of \<open>dir\<close>.
\<close>

type_synonym dir = "(string \<times> content) list"

definition readdir :: "dir \<Rightarrow> string list" where
  "readdir d = map fst d"

definition access :: "dir \<Rightarrow> string \<Rightarrow> bool" where
  "access d f = (map_of d f \<noteq> None)"

definition readFile :: "dir \<Rightarrow> string \<Rightarrow> content option" where
  "readFile d f = map_of d f"

definition writeFile :: "dir \<Rightarrow> string \<Rightarrow> content \<Rightarrow> dir" where
  "writeFile d f c = AList.update f c d"

definition unlink :: "dir \<Rightarrow> string \<Rightarrow> dir" where
  "unlink d f = AList.delete f d"

text \<open>\<^verbatim>\<open>fs.rename\<close> inside one directory; \<open>None\<close> when the source is missing.\<close>

definition rename :: "dir \<Rightarrow> string \<Rightarrow> string \<Rightarrow> dir option" where
  "rename d src dst =
     (case map_of d src of
        None \<Rightarrow> None
      | Some c \<Rightarrow> Some (AList.update dst c (AList.delete src d)))"

definition endsWith :: "string \<Rightarrow> string \<Rightarrow> bool" where
  "endsWith s suf = (length suf \<le> length s \<and> drop (length s - length suf) s = suf)"

definition startsWith :: "string \<Rightarrow> string \<Rightarrow> bool" where
  "startsWith s pre = (take (length pre) s = pre)"

section \<open>The bus (communication/EventBus.ts)\<close>

datatype error = TypeError | InvalidEventData | WriteFailed | ENOENT

text \<open>
  A handler is the caller's business logic: the bus awaits it and only
  distinguishes whether it resolved (\<open>True\<close>) or threw (\<open>False\<close>). What
  a handler does on its own, to the event object or to the files, is outside
  the bus and is not part of the model: a handler is taken to leave both as
  they are. The handlers of a bus are the \<^verbatim>\<open>Map<EventType, EventHandler[]>\<close>.
\<close>

type_synonym handler = "BaseEvent \<Rightarrow> bool"

type_synonym handlers = "EventType \<rightharpoonup> handler list"

text \<open>
  What a run does besides changing files is observed in a trace: \<open>Begin e\<close>
  when \<^verbatim>\<open>processEvent(e)\<close> is entered on an event \<open>e\<close>, \<open>Call i e ok\<close> when
  the \<open>i\<close>-th handler registered for the type of \<open>e\<close> has been awaited on
  \<open>e\<close>, with its outcome.
\<close>

datatype entry = Begin BaseEvent | Call nat BaseEvent bool

record world =
  pendingDir :: dir
  processedDir :: dir
  trace :: "entry list"

definition subscribe :: "EventType \<Rightarrow> handler \<Rightarrow> handlers \<Rightarrow> handlers" where
  "subscribe t h hs =
     (let hs1 = (if hs t = None then hs(t \<mapsto> []) else hs)
      in hs1(t \<mapsto> the (hs1 t) @ [h]))"

subsection \<open>publish\<close>

text \<open>
  The argument of \<^verbatim>\<open>publish\<close>: a partially populated event. \<open>None\<close> is a
  field that is missing or empty (falsy). The payload in memory may be a value
  \<^verbatim>\<open>JSON.stringify\<close> throws on (a cyclic object, a BigInt).
\<close>

datatype memPayload = Plain payload | Unserializable

record EventInput =
  in_id :: "string option"
  in_type :: EventType
  in_timestamp :: "int option"
  in_sourceAgent :: AgentType
  in_targetAgent :: "AgentType option"
  in_payload :: memPayload
  in_processedBy :: "string list option"
  in_status :: "EventStatus option"

text \<open>
  What \<^verbatim>\<open>publish\<close> reads from its environment: the digits of
  \<^verbatim>\<open>Date.now()\<close> and the \<^verbatim>\<open>crypto.randomUUID()\<close> of \<^verbatim>\<open>generateEventId\<close>, and
  the instant of \<^verbatim>\<open>new Date()\<close>.
\<close>

record env =
  dateNow :: string
  randomUUID :: string
  newDate :: int

definition generateEventId :: "env \<Rightarrow> string" where
  "generateEventId en = ''event-'' @ dateNow en @ ''-'' @ randomUUID en"

definition withDefaults :: "env \<Rightarrow> EventInput \<Rightarrow> EventInput" where
  "withDefaults en ev =
     ev\<lparr> in_id := (case in_id ev of
                      None \<Rightarrow> Some (generateEventId en)
                    | Some i \<Rightarrow> if i = [] then Some (generateEventId en) else Some i),
         in_timestamp := (case in_timestamp ev of None \<Rightarrow> Some (newDate en) | Some t \<Rightarrow> Some t),
         in_processedBy := (case in_processedBy ev of None \<Rightarrow> Some [] | Some p \<Rightarrow> Some p),
         in_status := (case in_status ev of None \<Rightarrow> Some pending | Some s \<Rightarrow> Some s) \<rparr>"

text \<open>\<^verbatim>\<open>JSON.stringify(event, null, 2)\<close> of an event whose defaults are filled in.\<close>

definition stringify :: "EventInput \<Rightarrow> content option" where
  "stringify ev =
     (case in_payload ev of
        Unserializable \<Rightarrow> None
      | Plain p \<Rightarrow>
          Some (Json \<lparr> eventId = the (in_id ev), eventType = in_type ev,
                       timestamp = the (in_timestamp ev),
                       sourceAgent = in_sourceAgent ev, targetAgent = in_targetAgent ev,
                       payload = p, processedBy = PBArray (the (in_processedBy ev)),
                       status = the (in_status ev) \<rparr>))"

text \<open>The body of the \<^verbatim>\<open>try\<close> block of \<^verbatim>\<open>publish\<close>.\<close>

definition publishTry :: "env \<Rightarrow> EventInput \<Rightarrow> world \<Rightarrow> (error + unit) \<times> world" where
  "publishTry en ev0 w =
     (let ev = withDefaults en ev0;
          eventFileName = the (in_id ev) @ ''.json'';
          tempFileName = ''.'' @ the (in_id ev) @ ''.tmp''
      in if access (pendingDir w) eventFileName then (Inr (), w)
         else
           (case stringify ev of
              None \<Rightarrow> (Inl InvalidEventData, w)
            | Some jsonContent \<Rightarrow>
                (let w1 = w\<lparr>pendingDir := writeFile (pendingDir w) tempFileName jsonContent\<rparr>
                 in case readFile (pendingDir w1) tempFileName of
                      None \<Rightarrow> (Inl ENOENT, w1)
                    | Some (Garbled t) \<Rightarrow>
                        (Inl WriteFailed, w1\<lparr>pendingDir := unlink (pendingDir w1) tempFileName\<rparr>)
                    | Some parsed \<Rightarrow>
                        (case rename (pendingDir w1) tempFileName eventFileName of
                           None \<Rightarrow> (Inl ENOENT, w1)
                         | Some d \<Rightarrow> (Inr (), w1\<lparr>pendingDir := d\<rparr>)))))"

text \<open>\<^verbatim>\<open>publish\<close>: the \<^verbatim>\<open>catch\<close> logs the error and does not rethrow.\<close>

definition publish :: "env \<Rightarrow> EventInput \<Rightarrow> world \<Rightarrow> (error + unit) \<times> world" where
  "publish en ev w =
     (case publishTry en ev w of
        (Inl err, w1) \<Rightarrow> (Inr (), w1)
      | (Inr u, w1) \<Rightarrow> (Inr u, w1))"

subsection \<open>moveToProcessed and processEvent\<close>

definition moveToProcessed :: "string \<Rightarrow> world \<Rightarrow> world" where
  "moveToProcessed evId w =
     (let sourceName = evId @ ''.json''; destName = evId @ ''.json''
      in if access (pendingDir w) sourceName then
           (case readFile (pendingDir w) sourceName of
              None \<Rightarrow> w
            | Some c \<Rightarrow>
                w\<lparr> processedDir := writeFile (processedDir w) destName c,
                   pendingDir := unlink (pendingDir w) sourceName \<rparr>)
         else w)"

text \<open>The loop over the handlers: each is awaited, a failure is logged and the loop goes on.\<close>

fun callHandlers :: "handler list \<Rightarrow> nat \<Rightarrow> BaseEvent \<Rightarrow> entry list" where
  "callHandlers [] i e = []"
| "callHandlers (h # hs) i e = Call i e (h e) # callHandlers hs (Suc i) e"

definition handlersFor :: "handlers \<Rightarrow> EventType \<Rightarrow> handler list" where
  "handlersFor hs t = (case hs t of None \<Rightarrow> [] | Some l \<Rightarrow> l)"

text \<open>
  \<^verbatim>\<open>processEvent\<close>. Its \<^verbatim>\<open>catch\<close> rethrows, so an error of the body is the
  error of the call. On an array, \<^verbatim>\<open>includes\<close> is membership; on a string it is
  the substring test and the later \<^verbatim>\<open>push\<close> is a TypeError; on anything else
  \<^verbatim>\<open>includes\<close> itself is a TypeError.
\<close>

definition processEvent :: "string \<Rightarrow> handlers \<Rightarrow> BaseEvent \<Rightarrow> world \<Rightarrow> (error + unit) \<times> world" where
  "processEvent agentId hs event w0 =
     (let w = w0\<lparr>trace := trace w0 @ [Begin event]\<rparr>
      in case processedBy event of
           PBOther \<Rightarrow> (Inl TypeError, w)
         | PBString s \<Rightarrow>
             if sublist agentId s then (Inr (), w)
             else (Inl TypeError,
                   w\<lparr>trace := trace w @ callHandlers (handlersFor hs (eventType event)) 0 event\<rparr>)
         | PBArray ids \<Rightarrow>
             if agentId \<in> set ids then (Inr (), w)
             else
               (let w1 = w\<lparr>trace := trace w @ callHandlers (handlersFor hs (eventType event)) 0 event\<rparr>;
                    event1 = event\<lparr>processedBy := PBArray (ids @ [agentId])\<rparr>;
                    allAgentsProcessed = (length (ids @ [agentId]) \<ge> 3)
                in if allAgentsProcessed then (Inr (), moveToProcessed (eventId event1) w1)
                   else
                     (let eventFileName = eventId event1 @ ''.json'';
                          tempFileName = ''.'' @ eventId event1 @ ''.tmp''
                      in if access (pendingDir w1) eventFileName then
                           (let d1 = writeFile (pendingDir w1) tempFileName (Json event1)
                            in case rename d1 tempFileName eventFileName of
                                 None \<Rightarrow> (Inr (), w1\<lparr>pendingDir := d1\<rparr>)
                               | Some d2 \<Rightarrow> (Inr (), w1\<lparr>pendingDir := d2\<rparr>))
                         else (Inr (), w1))))"

subsection \<open>poll\<close>

definition isEventFile :: "string \<Rightarrow> bool" where
  "isEventFile file = (endsWith file ''.json'' \<and> \<not> startsWith file ''.'')"

text \<open>
  The loop that reads the files: a file that cannot be read is skipped, a file
  whose text does not parse is renamed to \<^verbatim>\<open>corrupted-<name>\<close> in the processed
  directory and skipped. Whatever \<^verbatim>\<open>JSON.parse\<close> returns is pushed onto
  \<^verbatim>\<open>events\<close> unchecked; \<open>None\<close> is the value \<^verbatim>\<open>null\<close>.
\<close>

fun readEvents :: "string list \<Rightarrow> world \<Rightarrow> BaseEvent option list \<times> world" where
  "readEvents [] w = ([], w)"
| "readEvents (file # files) w =
     (case readFile (pendingDir w) file of
        None \<Rightarrow> readEvents files w
      | Some (Json event) \<Rightarrow>
          (case readEvents files w of (events, w1) \<Rightarrow> (Some event # events, w1))
      | Some JsonNull \<Rightarrow>
          (case readEvents files w of (events, w1) \<Rightarrow> (None # events, w1))
      | Some (Garbled t) \<Rightarrow>
          readEvents files
            (w\<lparr> processedDir := writeFile (processedDir w) (''corrupted-'' @ file) (Garbled t),
                pendingDir := unlink (pendingDir w) file \<rparr>))"

text \<open>The loop \<^verbatim>\<open>for (const event of events) await this.processEvent(event)\<close>.\<close>

fun processAll :: "string \<Rightarrow> handlers \<Rightarrow> BaseEvent list \<Rightarrow> world \<Rightarrow> (error + unit) \<times> world" where
  "processAll agentId hs [] w = (Inr (), w)"
| "processAll agentId hs (event # events) w =
     (case processEvent agentId hs event w of
        (Inl err, w1) \<Rightarrow> (Inl err, w1)
      | (Inr u, w1) \<Rightarrow> processAll agentId hs events w1)"

text \<open>
  \<^verbatim>\<open>poll\<close> up to its loop over the events (lines 219 to 259): the files are
  listed and read, the events sorted. The result is the list of events that
  the loop goes through, or the error that is thrown before the loop gets to
  an event. \<^verbatim>\<open>Array.prototype.sort\<close> is stable, and the comparator is the
  difference of the two times, so the result is the stable sort by time. The
  comparator reads \<^verbatim>\<open>a.timestamp\<close> and \<^verbatim>\<open>b.timestamp\<close>: when \<^verbatim>\<open>null\<close> is
  one of two or more values that were read, it is compared with another one,
  which is a TypeError thrown out of \<^verbatim>\<open>sort\<close>. When \<^verbatim>\<open>null\<close> is the only
  value, nothing is compared and the loop calls \<^verbatim>\<open>processEvent(null)\<close>, which
  throws the TypeError at once, reading \<^verbatim>\<open>event.processedBy\<close>. Either way
  the cycle ends with a TypeError after the files have been read and before
  anything is done to an event: that is the one branch for \<open>None\<close> below.
  With no event file at all \<^verbatim>\<open>poll\<close> returns at once.
\<close>

definition readAndSort :: "world \<Rightarrow> (error + BaseEvent list) \<times> world" where
  "readAndSort w =
     (let files = readdir (pendingDir w);
          eventFiles = filter isEventFile files
      in if length eventFiles = 0 then (Inr [], w)
         else
           (case readEvents eventFiles w of
              (events, w1) \<Rightarrow>
                if None \<in> set events then (Inl TypeError, w1)
                else (Inr (sort_key timestamp (map the events)), w1)))"

text \<open>
  The rest of \<^verbatim>\<open>poll\<close> (lines 261 to 268): the loop over the events that were
  read; the \<^verbatim>\<open>catch\<close> rethrows. It is a function of what was read and of the
  directories as they are when the loop runs.
\<close>

definition pollLoop :: "string \<Rightarrow> handlers \<Rightarrow> error + BaseEvent list \<Rightarrow> world \<Rightarrow> (error + unit) \<times> world" where
  "pollLoop agentId hs result w =
     (case result of
        Inl err \<Rightarrow> (Inl err, w)
      | Inr events \<Rightarrow> processAll agentId hs events w)"

text \<open>\<^verbatim>\<open>poll\<close>, run from start to end.\<close>

definition poll :: "string \<Rightarrow> handlers \<Rightarrow> world \<Rightarrow> (error + unit) \<times> world" where
  "poll agentId hs w = (case readAndSort w of (result, w1) \<Rightarrow> pollLoop agentId hs result w1)"

text \<open>
  A timer tick of \<^verbatim>\<open>startPolling\<close>: \<^verbatim>\<open>this.poll().catch(...)\<close> logs the error
  of a failed cycle and the timer goes on. \<open>ticks n\<close> is \<open>n\<close> cycles that
  do not overlap: each runs from start to end before the next starts.
\<close>

definition tick :: "string \<Rightarrow> handlers \<Rightarrow> world \<Rightarrow> world" where
  "tick agentId hs w = snd (poll agentId hs w)"

fun ticks :: "nat \<Rightarrow> string \<Rightarrow> handlers \<Rightarrow> world \<Rightarrow> world" where
  "ticks 0 agentId hs w = w"
| "ticks (Suc n) agentId hs w = ticks n agentId hs (tick agentId hs w)"

section \<open>Notions used to state the properties\<close>

text \<open>
  \<open>rejects a e\<close>: \<^verbatim>\<open>processEvent(e)\<close> of the bus of agent \<open>a\<close> throws
  (lemma \<open>fst_processEvent\<close> below: the call throws exactly then).
  \<open>dispatches a e\<close>: it reaches the loop over the handlers (lemma
  \<open>trace_processEvent\<close>: the handlers are called exactly then).
\<close>

definition rejects :: "string \<Rightarrow> BaseEvent \<Rightarrow> bool" where
  "rejects agentId e =
     (case processedBy e of
        PBOther \<Rightarrow> True
      | PBString s \<Rightarrow> \<not> sublist agentId s
      | PBArray ids \<Rightarrow> False)"

definition dispatches :: "string \<Rightarrow> BaseEvent \<Rightarrow> bool" where
  "dispatches agentId e =
     (case processedBy e of
        PBOther \<Rightarrow> False
      | PBString s \<Rightarrow> \<not> sublist agentId s
      | PBArray ids \<Rightarrow> agentId \<notin> set ids)"

text \<open>
  The events of the event files of a directory, in the order of the listing;
  whether one of its event files has the text \<^verbatim>\<open>null\<close>; and the values that
  the event files parse to, \<^verbatim>\<open>null\<close> included.
\<close>

fun pendingEvents :: "dir \<Rightarrow> BaseEvent list" where
  "pendingEvents [] = []"
| "pendingEvents ((f, Json e) # d) = (if isEventFile f then e # pendingEvents d else pendingEvents d)"
| "pendingEvents ((f, JsonNull) # d) = pendingEvents d"
| "pendingEvents ((f, Garbled t) # d) = pendingEvents d"

definition hasNull :: "dir \<Rightarrow> bool" where
  "hasNull d = (\<exists>(f, c) \<in> set d. isEventFile f \<and> c = JsonNull)"

fun pendingValues :: "dir \<Rightarrow> BaseEvent option list" where
  "pendingValues [] = []"
| "pendingValues ((f, Json e) # d) = (if isEventFile f then Some e # pendingValues d else pendingValues d)"
| "pendingValues ((f, JsonNull) # d) = (if isEventFile f then None # pendingValues d else pendingValues d)"
| "pendingValues ((f, Garbled t) # d) = pendingValues d"

text \<open>The events that a poll cycle hands to \<^verbatim>\<open>processEvent\<close>, in that order.\<close>

definition cycleEvents :: "dir \<Rightarrow> BaseEvent list" where
  "cycleEvents d = (if hasNull d then [] else sort_key timestamp (pendingEvents d))"

text \<open>
  The layout of the pending directory: a name is listed once, and an event file
  that parses is named after the id of its event.
\<close>

definition layout :: "dir \<Rightarrow> bool" where
  "layout d =
     (distinct (map fst d) \<and>
      list_all (\<lambda>(f, c). case c of
                            Json e \<Rightarrow> isEventFile f \<longrightarrow> f = eventId e @ ''.json''
                          | JsonNull \<Rightarrow> True
                          | Garbled t \<Rightarrow> True) d)"

text \<open>The events on which \<^verbatim>\<open>processEvent\<close> was entered, and the handler calls, of a trace.\<close>

fun begun :: "entry list \<Rightarrow> BaseEvent list" where
  "begun [] = []"
| "begun (Begin e # tr) = e # begun tr"
| "begun (Call i e ok # tr) = begun tr"

fun calls :: "entry list \<Rightarrow> (nat \<times> BaseEvent \<times> bool) list" where
  "calls [] = []"
| "calls (Begin e # tr) = calls tr"
| "calls (Call i e ok # tr) = (i, e, ok) # calls tr"

text \<open>The handler calls of a trace that were made on an event of a given id.\<close>

definition callsOn :: "string \<Rightarrow> entry list \<Rightarrow> (nat \<times> BaseEvent \<times> bool) list" where
  "callsOn i tr = filter (\<lambda>(k, e, ok). eventId e = i) (calls tr)"

text \<open>
  The handler calls that are due on a record in a cycle of a consumer: when
  \<^verbatim>\<open>processEvent\<close> gets to its loop over the handlers, one call of every
  handler registered for the type of the record, in the order of registration,
  each with the outcome it has on the record; none otherwise.
\<close>

definition handlerCalls :: "string \<Rightarrow> handlers \<Rightarrow> BaseEvent \<Rightarrow> (nat \<times> BaseEvent \<times> bool) list" where
  "handlerCalls agentId hs e =
     (if dispatches agentId e
      then map (\<lambda>k. (k, e, ((handlersFor hs (eventType e)) ! k) e))
             [0..<length (handlersFor hs (eventType e))]
      else [])"

section \<open>Data of the scenarios\<close>

definition emptyWorld :: world where
  "emptyWorld = \<lparr> pendingDir = [], processedDir = [], trace = [] \<rparr>"

definition env0 :: env where
  "env0 = \<lparr> dateNow = ''1700000000000'', randomUUID = ''0000-01'', newDate = 1700000000000 \<rparr>"

text \<open>The \<^verbatim>\<open>JOB_CREATED\<close> event of the end-to-end scenario, as it is passed to \<^verbatim>\<open>publish\<close>.\<close>

definition jobCreated :: EventInput where
  "jobCreated =
     \<lparr> in_id = Some ''event-1'', in_type = JOB_CREATED, in_timestamp = Some 1000,
       in_sourceAgent = hiring, in_targetAgent = None,
       in_payload = Plain [(''jobId'', JString ''job-1''), (''budget'', JNumber 100)],
       in_processedBy = Some [], in_status = Some pending \<rparr>"

text \<open>The same event as a stored record, with a given \<^verbatim>\<open>processedBy\<close>.\<close>

definition jobRecord :: "processedByField \<Rightarrow> BaseEvent" where
  "jobRecord pb =
     \<lparr> eventId = ''event-1'', eventType = JOB_CREATED, timestamp = 1000,
       sourceAgent = hiring, targetAgent = None,
       payload = [(''jobId'', JString ''job-1''), (''budget'', JNumber 100)],
       processedBy = pb, status = pending \<rparr>"

text \<open>A later event, \<^verbatim>\<open>JOB_ACCEPTED\<close>, as a stored record.\<close>

definition laterRecord :: "processedByField \<Rightarrow> BaseEvent" where
  "laterRecord pb =
     \<lparr> eventId = ''event-2'', eventType = JOB_ACCEPTED, timestamp = 2000,
       sourceAgent = worker, targetAgent = Some hiring,
       payload = [(''jobId'', JString ''job-1''), (''workerId'', JString ''worker-1'')],
       processedBy = pb, status = pending \<rparr>"

text \<open>A store that holds the record of \<^verbatim>\<open>jobCreated\<close> only.\<close>

definition stored :: "processedByField \<Rightarrow> world" where
  "stored pb = \<lparr> pendingDir = [(''event-1.json'', Json (jobRecord pb))], processedDir = [], trace = [] \<rparr>"

text \<open>A store with both records, listed newest first.\<close>

definition twoStored :: "processedByField \<Rightarrow> world" where
  "twoStored pb =
     \<lparr> pendingDir = [(''event-2.json'', Json (laterRecord (PBArray []))),
                     (''event-1.json'', Json (jobRecord pb))],
       processedDir = [], trace = [] \<rparr>"


text \<open>Two handlers for \<^verbatim>\<open>JOB_CREATED\<close>: the first throws, the second resolves.\<close>

definition failing :: handler where "failing e = False"

definition succeeding :: handler where "succeeding e = True"

definition twoHandlers :: handlers where
  "twoHandlers = subscribe JOB_CREATED succeeding (subscribe JOB_CREATED failing Map.empty)"

text \<open>The same, and a handler for \<^verbatim>\<open>JOB_ACCEPTED\<close>.\<close>

definition threeHandlers :: handlers where
  "threeHandlers = subscribe JOB_ACCEPTED succeeding twoHandlers"

text \<open>A store whose first event file has the text \<^verbatim>\<open>null\<close>, before two records.\<close>

definition withNull :: world where
  "withNull =
     \<lparr> pendingDir = [(''event-0.json'', JsonNull),
                     (''event-2.json'', Json (laterRecord (PBArray []))),
                     (''event-1.json'', Json (jobRecord (PBArray [])))],
       processedDir = [], trace = [] \<rparr>"

section \<open>The file operations and the names of files\<close>

lemma map_of_writeFile: "map_of (writeFile d f c) = (map_of d)(f \<mapsto> c)"
  by (simp add: writeFile_def update_conv')

lemma map_of_unlink: "map_of (unlink d f) = (map_of d)(f := None)"
  by (simp add: unlink_def delete_conv')

lemma distinct_writeFile: "distinct (map fst d) \<Longrightarrow> distinct (map fst (writeFile d f c))"
  by (simp add: writeFile_def distinct_update)

lemma distinct_unlink: "distinct (map fst d) \<Longrightarrow> distinct (map fst (unlink d f))"
  by (simp add: unlink_def distinct_delete)

lemma json_name_inj: "(x @ ''.json'' = y @ ''.json'') = (x = y)"
  by simp

lemma tmp_not_json: "''.'' @ x @ ''.tmp'' \<noteq> y @ ''.json''"
proof
  assume "''.'' @ x @ ''.tmp'' = y @ ''.json''"
  then have "last (''.'' @ x @ ''.tmp'') = last (y @ ''.json'')" by simp
  then show False by simp
qed

lemma isEventFile_json: "isEventFile (x @ ''.json'') = (x \<noteq> [] \<and> hd x \<noteq> CHR ''.'')"
  by (cases x) (auto simp: isEventFile_def endsWith_def startsWith_def)

lemma not_isEventFile_dot: "\<not> isEventFile (''.'' @ x)"
  by (simp add: isEventFile_def startsWith_def)

lemma isEventFile_stem: "isEventFile f \<Longrightarrow> \<exists>x. f = x @ ''.json''"
  unfolding isEventFile_def endsWith_def
  by (metis append_take_drop_id)

section \<open>One call of processEvent\<close>

lemma fst_processEvent:
  "fst (processEvent a hs e w) = (if rejects a e then Inl TypeError else Inr ())"
  by (simp add: processEvent_def rejects_def Let_def split: processedByField.splits option.splits)

lemma trace_processEvent:
  "trace (snd (processEvent a hs e w)) =
     trace w @ Begin e # (if dispatches a e then callHandlers (handlersFor hs (eventType e)) 0 e else [])"
  by (simp add: processEvent_def dispatches_def moveToProcessed_def Let_def
           split: processedByField.splits option.splits)

lemma moveToProcessed_pending:
  "map_of (pendingDir (moveToProcessed i w)) = (map_of (pendingDir w))(i @ ''.json'' := None)"
  by (auto simp: moveToProcessed_def Let_def access_def readFile_def map_of_unlink split: option.splits)

lemma moveToProcessed_processed:
  "map_of (processedDir (moveToProcessed i w)) =
     (case map_of (pendingDir w) (i @ ''.json'') of
        None \<Rightarrow> map_of (processedDir w)
      | Some c \<Rightarrow> (map_of (processedDir w))(i @ ''.json'' \<mapsto> c))"
  by (auto simp: moveToProcessed_def Let_def access_def readFile_def map_of_writeFile split: option.splits)

lemma rename_after_write:
  "rename (writeFile d t c) t f = Some (AList.update f c (AList.delete t (writeFile d t c)))"
  by (simp add: rename_def map_of_writeFile)

lemma processEvent_pending:
  "map_of (pendingDir (snd (processEvent a hs e w))) =
     (case processedBy e of
        PBArray ids \<Rightarrow>
          if a \<in> set ids then map_of (pendingDir w)
          else if 3 \<le> length (ids @ [a]) then (map_of (pendingDir w))(eventId e @ ''.json'' := None)
          else if map_of (pendingDir w) (eventId e @ ''.json'') = None then map_of (pendingDir w)
          else (map_of (pendingDir w))
                 (''.'' @ eventId e @ ''.tmp'' := None,
                  eventId e @ ''.json'' \<mapsto> Json (e\<lparr>processedBy := PBArray (ids @ [a])\<rparr>))
      | _ \<Rightarrow> map_of (pendingDir w))"
  by (auto simp: processEvent_def Let_def access_def moveToProcessed_pending rename_after_write
        update_conv' delete_conv' map_of_writeFile
        split: processedByField.splits option.splits)

lemma processEvent_processed:
  "map_of (processedDir (snd (processEvent a hs e w))) =
     (case processedBy e of
        PBArray ids \<Rightarrow>
          if a \<notin> set ids \<and> 3 \<le> length (ids @ [a]) then
            (case map_of (pendingDir w) (eventId e @ ''.json'') of
               None \<Rightarrow> map_of (processedDir w)
             | Some c \<Rightarrow> (map_of (processedDir w))(eventId e @ ''.json'' \<mapsto> c))
          else map_of (processedDir w)
      | _ \<Rightarrow> map_of (processedDir w))"
  by (auto simp: processEvent_def Let_def access_def moveToProcessed_processed rename_after_write
        split: processedByField.splits option.splits)

lemma rename_distinct:
  "distinct (map fst d) \<Longrightarrow> rename d s t = Some d' \<Longrightarrow> distinct (map fst d')"
  by (auto simp: rename_def distinct_update distinct_delete split: option.splits)

lemma moveToProcessed_distinct:
  "distinct (map fst (pendingDir w)) \<Longrightarrow> distinct (map fst (pendingDir (moveToProcessed i w)))"
  "distinct (map fst (processedDir w)) \<Longrightarrow> distinct (map fst (processedDir (moveToProcessed i w)))"
  by (auto simp: moveToProcessed_def Let_def distinct_writeFile distinct_unlink split: option.splits)

lemma processEvent_distinct_pending:
  "distinct (map fst (pendingDir w)) \<Longrightarrow> distinct (map fst (pendingDir (snd (processEvent a hs e w))))"
  by (auto simp: processEvent_def Let_def moveToProcessed_distinct distinct_writeFile
        dest: rename_distinct [rotated]
        split: processedByField.splits option.splits)

lemma processEvent_distinct_processed:
  "distinct (map fst (processedDir w)) \<Longrightarrow> distinct (map fst (processedDir (snd (processEvent a hs e w))))"
  by (auto simp: processEvent_def Let_def moveToProcessed_distinct
        split: processedByField.splits option.splits)

text \<open>What a call leaves as it was.\<close>

lemma processEvent_pending_other:
  "g \<noteq> eventId e @ ''.json'' \<Longrightarrow> g \<noteq> ''.'' @ eventId e @ ''.tmp'' \<Longrightarrow>
   map_of (pendingDir (snd (processEvent a hs e w))) g = map_of (pendingDir w) g"
  by (simp add: processEvent_pending split: processedByField.splits)



lemma processEvent_idle:
  "\<not> dispatches a e \<Longrightarrow>
   pendingDir (snd (processEvent a hs e w)) = pendingDir w \<and>
   processedDir (snd (processEvent a hs e w)) = processedDir w"
  by (auto simp: processEvent_def dispatches_def Let_def split: processedByField.splits)

lemma layout_map_of:
  "layout d = (distinct (map fst d) \<and>
     (\<forall>f e. map_of d f = Some (Json e) \<longrightarrow> isEventFile f \<longrightarrow> f = eventId e @ ''.json''))"
proof (cases "distinct (map fst d)")
  case False then show ?thesis by (simp add: layout_def)
next
  case True
  then have "\<And>f c. (map_of d f = Some c) = ((f, c) \<in> set d)" by simp
  then show ?thesis using True
    by (auto simp: layout_def list_all_iff split: content.splits) 
qed

lemma processEvent_layout:
  assumes "layout (pendingDir w)"
  shows "layout (pendingDir (snd (processEvent a hs e w)))"
  using assms unfolding layout_map_of
  by (auto simp: processEvent_distinct_pending processEvent_pending
       split: processedByField.splits if_splits)

section \<open>The loop that reads the files\<close>

lemma trace_readEvents: "trace (snd (readEvents fs w)) = trace w"
  by (induction fs arbitrary: w) (auto simp: case_prod_beta split: option.splits content.splits)

lemma readEvents_pending:
  "map_of (pendingDir (snd (readEvents fs w))) g =
     (if g \<in> set fs \<and> (\<exists>t. map_of (pendingDir w) g = Some (Garbled t)) then None
      else map_of (pendingDir w) g)"
proof (induction fs arbitrary: w)
  case Nil
  then show ?case by simp
next
  case (Cons f fs)
  show ?case
  proof (cases "readFile (pendingDir w) f")
    case None
    then show ?thesis using Cons.IH [of w] by (auto simp: readFile_def)
  next
    case (Some c)
    show ?thesis
    proof (cases c)
      case (Json e)
      then show ?thesis using Some Cons.IH [of w]
        by (auto simp: readFile_def case_prod_beta)
    next
      case JsonNull
      then show ?thesis using Some Cons.IH [of w]
        by (auto simp: readFile_def case_prod_beta)
    next
      case (Garbled t)
      then show ?thesis using Some
        by (auto simp: Cons.IH readFile_def map_of_unlink)
    qed
  qed
qed

lemma readEvents_distinct_pending:
  "distinct (map fst (pendingDir w)) \<Longrightarrow> distinct (map fst (pendingDir (snd (readEvents fs w))))"
  by (induction fs arbitrary: w)
     (auto simp: distinct_unlink case_prod_beta split: option.splits content.splits)



text \<open>The values that are read.\<close>

lemma readEvents_values_aux:
  "distinct (map fst xs) \<Longrightarrow> \<forall>(f, c) \<in> set xs. map_of (pendingDir w) f = Some c \<Longrightarrow>
   fst (readEvents (filter isEventFile (map fst xs)) w) = pendingValues xs"
proof (induction xs arbitrary: w)
  case Nil
  then show ?case by simp
next
  case (Cons x xs)
  obtain f c where x: "x = (f, c)" by (cases x)
  have dist: "distinct (map fst xs)" and notin: "f \<notin> fst ` set xs" using Cons.prems(1) x by auto
  have rest: "\<forall>(f, c) \<in> set xs. map_of (pendingDir w) f = Some c" using Cons.prems(2) by auto
  have here: "map_of (pendingDir w) f = Some c" using Cons.prems(2) x by auto
  show ?case
  proof (cases "isEventFile f")
    case False
    then show ?thesis using x Cons.IH [OF dist rest] by (cases c) auto
  next
    case True
    show ?thesis
    proof (cases c)
      case (Json e)
      then show ?thesis using x True here Cons.IH [OF dist rest]
        by (simp add: readFile_def case_prod_beta)
    next
      case JsonNull
      then show ?thesis using x True here Cons.IH [OF dist rest]
        by (simp add: readFile_def case_prod_beta)
    next
      case (Garbled t)
      let ?w' = "w\<lparr> processedDir := writeFile (processedDir w) (''corrupted-'' @ f) (Garbled t),
                pendingDir := unlink (pendingDir w) f \<rparr>"
      have "\<forall>(g, c) \<in> set xs. map_of (pendingDir ?w') g = Some c"
        using rest notin by (force simp: map_of_unlink)
      from Cons.IH [OF dist this] show ?thesis using x True here Garbled
        by (simp add: readFile_def)
    qed
  qed
qed

lemma readEvents_values:
  "distinct (map fst (pendingDir w)) \<Longrightarrow>
   fst (readEvents (filter isEventFile (readdir (pendingDir w))) w) = pendingValues (pendingDir w)"
  unfolding readdir_def
  by (rule readEvents_values_aux) auto

section \<open>The loop over the events\<close>

lemma begun_append: "begun (xs @ ys) = begun xs @ begun ys"
  by (induction xs rule: begun.induct) auto

lemma calls_append: "calls (xs @ ys) = calls xs @ calls ys"
  by (induction xs rule: calls.induct) auto

lemma begun_callHandlers: "begun (callHandlers hl i e) = []"
  by (induction hl arbitrary: i) auto

lemma calls_callHandlers:
  "calls (callHandlers hl i e) = map (\<lambda>k. (i + k, e, (hl ! k) e)) [0..<length hl]"
proof (induction hl arbitrary: i)
  case Nil
  then show ?case by simp
next
  case (Cons h hl)
  have "map (\<lambda>k. (i + k, e, ((h # hl) ! k) e)) [0..<length (h # hl)] =
        (i, e, h e) # map (\<lambda>k. (Suc i + k, e, (hl ! k) e)) [0..<length hl]"
    by (simp add: upt_conv_Cons map_Suc_upt [symmetric] del: upt_Suc)
  then show ?case using Cons.IH [of "Suc i"] by simp
qed

lemma processEvent_split:
  "processEvent a hs e w = (fst (processEvent a hs e w), snd (processEvent a hs e w))"
  by simp

lemma processAll_Cons_ok:
  "\<not> rejects a e \<Longrightarrow> processAll a hs (e # es) w = processAll a hs es (snd (processEvent a hs e w))"
  using fst_processEvent [of a hs e w]
  by (cases "processEvent a hs e w") (auto split: sum.splits)

lemma processAll_Cons_bad:
  "rejects a e \<Longrightarrow> processAll a hs (e # es) w = (Inl TypeError, snd (processEvent a hs e w))"
  using fst_processEvent [of a hs e w]
  by (cases "processEvent a hs e w") (auto split: sum.splits)

lemma processAll_ok:
  "\<forall>e \<in> set es. \<not> rejects a e \<Longrightarrow> fst (processAll a hs es w) = Inr ()"
  by (induction es arbitrary: w) (auto simp: processAll_Cons_ok simp del: processAll.simps(2))

lemma processAll_append_ok:
  "\<forall>e \<in> set pre. \<not> rejects a e \<Longrightarrow>
   processAll a hs (pre @ es) w = processAll a hs es (snd (processAll a hs pre w))"
  by (induction pre arbitrary: w) (auto simp: processAll_Cons_ok simp del: processAll.simps(2))

lemma processAll_stop:
  "\<forall>e \<in> set pre. \<not> rejects a e \<Longrightarrow> rejects a bad \<Longrightarrow>
   processAll a hs (pre @ bad # post) w =
     (Inl TypeError, snd (processEvent a hs bad (snd (processAll a hs pre w))))"
  by (simp add: processAll_append_ok processAll_Cons_bad del: processAll.simps(2))

lemma begun_processEvent:
  "begun (trace (snd (processEvent a hs e w))) = begun (trace w) @ [e]"
  by (simp add: trace_processEvent begun_append begun_callHandlers)

lemma begun_processAll_ok:
  "\<forall>e \<in> set es. \<not> rejects a e \<Longrightarrow>
   begun (trace (snd (processAll a hs es w))) = begun (trace w) @ es"
  by (induction es arbitrary: w)
     (auto simp: processAll_Cons_ok begun_processEvent simp del: processAll.simps(2))

text \<open>A property that every step keeps is kept by the loop.\<close>

lemma processAll_invariant:
  assumes "\<And>e w. e \<in> set es \<Longrightarrow> P w \<Longrightarrow> P (snd (processEvent a hs e w))" and "P w"
  shows "P (snd (processAll a hs es w))"
  using assms
proof (induction es arbitrary: w)
  case Nil
  then show ?case by simp
next
  case (Cons e es)
  show ?case
  proof (cases "rejects a e")
    case True
    then show ?thesis using Cons.prems by (simp add: processAll_Cons_bad del: processAll.simps(2))
  next
    case False
    have "P (snd (processEvent a hs e w))" using Cons.prems by simp
    then have "P (snd (processAll a hs es (snd (processEvent a hs e w))))"
      using Cons.IH Cons.prems(1) by simp
    then show ?thesis using False by (simp add: processAll_Cons_ok del: processAll.simps(2))
  qed
qed


lemma processAll_pending_keeps:
  assumes "\<forall>e \<in> set es. dispatches a e \<longrightarrow> eventId e \<noteq> i"
  shows "map_of (pendingDir (snd (processAll a hs es w))) (i @ ''.json'') = map_of (pendingDir w) (i @ ''.json'')"
proof (rule processAll_invariant
        [where P = "\<lambda>w'. map_of (pendingDir w') (i @ ''.json'') = map_of (pendingDir w) (i @ ''.json'')"])
  fix e and w' :: world
  assume e: "e \<in> set es"
    and w': "map_of (pendingDir w') (i @ ''.json'') = map_of (pendingDir w) (i @ ''.json'')"
  show "map_of (pendingDir (snd (processEvent a hs e w'))) (i @ ''.json'') = map_of (pendingDir w) (i @ ''.json'')"
  proof (cases "dispatches a e")
    case False
    then show ?thesis using w' by (simp add: processEvent_idle)
  next
    case True
    then have "eventId e \<noteq> i" using assms e by simp
    then have "i @ ''.json'' \<noteq> eventId e @ ''.json''" by simp
    moreover have "i @ ''.json'' \<noteq> ''.'' @ eventId e @ ''.tmp''" using tmp_not_json [of "eventId e" i] by metis
    ultimately show ?thesis using w' by (metis processEvent_pending_other)
  qed
qed simp


lemma processAll_layout:
  "layout (pendingDir w) \<Longrightarrow> layout (pendingDir (snd (processAll a hs es w)))"
  by (rule processAll_invariant [where P = "\<lambda>w. layout (pendingDir w)"])
     (auto simp: processEvent_layout)

lemma processAll_distinct_processed:
  "distinct (map fst (processedDir w)) \<Longrightarrow> distinct (map fst (processedDir (snd (processAll a hs es w))))"
  by (rule processAll_invariant [where P = "\<lambda>w. distinct (map fst (processedDir w))"])
     (auto simp: processEvent_distinct_processed)

text \<open>The handler calls of the loop.\<close>

lemma processAll_calls:
  "\<exists>tr. trace (snd (processAll a hs es w)) = trace w @ tr \<and>
        (\<forall>(i, e, ok) \<in> set (calls tr). e \<in> set es \<and> dispatches a e)"
proof (induction es arbitrary: w)
  case Nil
  then show ?case by simp
next
  case (Cons e es)
  let ?w1 = "snd (processEvent a hs e w)"
  let ?t1 = "Begin e # (if dispatches a e then callHandlers (handlersFor hs (eventType e)) 0 e else [])"
  have t1: "trace ?w1 = trace w @ ?t1" by (simp add: trace_processEvent)
  have c1: "\<forall>(i, e', ok) \<in> set (calls ?t1). e' \<in> set (e # es) \<and> dispatches a e'"
    by (auto simp: calls_callHandlers)
  show ?case
  proof (cases "rejects a e")
    case True
    then show ?thesis using t1 c1 by (simp only: processAll_Cons_bad snd_conv) blast
  next
    case False
    from Cons.IH [of ?w1] obtain tr where
      tr: "trace (snd (processAll a hs es ?w1)) = trace ?w1 @ tr"
      and ctr: "\<forall>(i, e', ok) \<in> set (calls tr). e' \<in> set es \<and> dispatches a e'" by blast
    have "trace (snd (processAll a hs (e # es) w)) = trace w @ (?t1 @ tr)"
      using False tr t1 by (simp add: processAll_Cons_ok del: processAll.simps(2))
    moreover have "\<forall>(i, e', ok) \<in> set (calls (?t1 @ tr)). e' \<in> set (e # es) \<and> dispatches a e'"
      using c1 ctr by (auto simp: calls_append)
    ultimately show ?thesis by blast
  qed
qed

section \<open>The events of a poll cycle\<close>

lemma pendingValues_Nil:
  "filter isEventFile (map fst d) = [] \<Longrightarrow> pendingValues d = []"
  by (induction d rule: pendingValues.induct) (auto split: if_splits)

lemma hasNull_pendingValues: "hasNull d = (None \<in> set (pendingValues d))"
  by (induction d rule: pendingValues.induct) (auto simp: hasNull_def)

lemma the_pendingValues: "\<not> hasNull d \<Longrightarrow> map the (pendingValues d) = pendingEvents d"
  by (induction d rule: pendingValues.induct) (auto simp: hasNull_def)

lemma readAndSort_unfold:
  assumes "distinct (map fst (pendingDir w))"
  shows "readAndSort w =
     (if hasNull (pendingDir w) then Inl TypeError else Inr (cycleEvents (pendingDir w)),
      snd (readEvents (filter isEventFile (readdir (pendingDir w))) w))"
proof (cases "filter isEventFile (readdir (pendingDir w)) = []")
  case True
  then have "pendingValues (pendingDir w) = []" by (simp add: pendingValues_Nil readdir_def)
  then have "\<not> hasNull (pendingDir w)" and "pendingEvents (pendingDir w) = []"
    using the_pendingValues [of "pendingDir w"] by (simp_all add: hasNull_pendingValues)
  then show ?thesis using True by (simp add: readAndSort_def cycleEvents_def)
next
  case False
  then show ?thesis using readEvents_values [OF assms]
    by (simp add: readAndSort_def Let_def case_prod_beta cycleEvents_def
          hasNull_pendingValues [symmetric] the_pendingValues)
qed

lemma poll_cycle:
  assumes "distinct (map fst (pendingDir w))"
  shows "poll a hs w =
     (if hasNull (pendingDir w)
      then (Inl TypeError, snd (readEvents (filter isEventFile (readdir (pendingDir w))) w))
      else processAll a hs (sort_key timestamp (pendingEvents (pendingDir w)))
             (snd (readEvents (filter isEventFile (readdir (pendingDir w))) w)))"
  by (simp add: poll_def pollLoop_def readAndSort_unfold [OF assms] cycleEvents_def)

lemma poll_unfold:
  assumes "distinct (map fst (pendingDir w))" and "\<not> hasNull (pendingDir w)"
  shows "poll a hs w =
     processAll a hs (sort_key timestamp (pendingEvents (pendingDir w)))
       (snd (readEvents (filter isEventFile (readdir (pendingDir w))) w))"
  using assms(2) by (simp add: poll_cycle [OF assms(1)])


lemma set_pendingEvents:
  "distinct (map fst d) \<Longrightarrow>
   (e \<in> set (pendingEvents d)) = (\<exists>f. isEventFile f \<and> (f, Json e) \<in> set d)"
  by (induction d rule: pendingEvents.induct) auto

section \<open>publish\<close>

lemma publish_never_throws: "fst (publish en ev w) = Inr ()"
  by (simp add: publish_def split: prod.splits sum.splits)

lemma publish_existing:
  "access (pendingDir w) (the (in_id (withDefaults en ev)) @ ''.json'') \<Longrightarrow> publish en ev w = (Inr (), w)"
  by (simp add: publish_def publishTry_def Let_def)

lemma publish_new:
  assumes "\<not> access (pendingDir w) (the (in_id (withDefaults en ev)) @ ''.json'')"
      and "stringify (withDefaults en ev) = Some c"
  shows "map_of (pendingDir (snd (publish en ev w))) =
           (map_of (pendingDir w))(''.'' @ the (in_id (withDefaults en ev)) @ ''.tmp'' := None,
                                   the (in_id (withDefaults en ev)) @ ''.json'' \<mapsto> c)"
    and "processedDir (snd (publish en ev w)) = processedDir w"
    and "trace (snd (publish en ev w)) = trace w"
  using assms
  by (auto simp: publish_def publishTry_def Let_def readFile_def map_of_writeFile rename_def
        stringify_def update_conv' delete_conv' split: memPayload.splits)

lemma in_payload_withDefaults: "in_payload (withDefaults en ev) = in_payload ev"
  by (simp add: withDefaults_def)

lemma stringify_Some:
  "in_payload ev \<noteq> Unserializable \<Longrightarrow> \<exists>c. stringify (withDefaults en ev) = Some c"
  by (cases "in_payload ev") (simp_all add: stringify_def in_payload_withDefaults)

lemma callHandlers_eq:
  "callHandlers hl i e = map (\<lambda>k. Call (i + k) e ((hl ! k) e)) [0..<length hl]"
proof (induction hl arbitrary: i)
  case Nil
  then show ?case by simp
next
  case (Cons h hl)
  have "map (\<lambda>k. Call (i + k) e (((h # hl) ! k) e)) [0..<length (h # hl)] =
        Call i e (h e) # map (\<lambda>k. Call (Suc i + k) e ((hl ! k) e)) [0..<length hl]"
    by (simp add: upt_conv_Cons map_Suc_upt [symmetric] del: upt_Suc)
  then show ?case using Cons.IH [of "Suc i"] by simp
qed

lemma processEvent_fresh_pending:
  assumes "processedBy event = PBArray ids" and "agentId \<notin> set ids"
      and "readFile (pendingDir w) (eventId event @ ''.json'') = Some c"
  shows "readFile (pendingDir (snd (processEvent agentId hs event w))) (eventId event @ ''.json'') =
           (if 3 \<le> length ids + 1 then None
            else Some (Json (event\<lparr>processedBy := PBArray (ids @ [agentId])\<rparr>)))"
  using assms by (simp add: readFile_def processEvent_pending)

lemma processEvent_fresh_processed:
  assumes "processedBy event = PBArray ids" and "agentId \<notin> set ids"
      and "readFile (pendingDir w) (eventId event @ ''.json'') = Some c"
  shows "readFile (processedDir (snd (processEvent agentId hs event w))) (eventId event @ ''.json'') =
           (if 3 \<le> length ids + 1 then Some c
            else readFile (processedDir w) (eventId event @ ''.json''))"
  using assms by (simp add: readFile_def processEvent_processed)

lemma processEvent_rejects_idle:
  "rejects a e \<Longrightarrow>
   pendingDir (snd (processEvent a hs e w)) = pendingDir w \<and>
   processedDir (snd (processEvent a hs e w)) = processedDir w"
  by (auto simp: processEvent_def rejects_def Let_def split: processedByField.splits)


section \<open>The layout of the pending directory\<close>

lemma layout_distinct: "layout d \<Longrightarrow> distinct (map fst d)"
  by (simp add: layout_def)

lemma layout_tail: "layout (x # d) \<Longrightarrow> layout d"
  by (simp add: layout_def)

lemma readEvents_layout:
  assumes "layout (pendingDir w)"
  shows "layout (pendingDir (snd (readEvents fs w)))"
  using assms unfolding layout_map_of
  by (auto simp: readEvents_distinct_pending readEvents_pending split: if_splits)

lemma pendingEvents_named:
  assumes "layout d" and "e \<in> set (pendingEvents d)"
  shows "map_of d (eventId e @ ''.json'') = Some (Json e)"
proof -
  have d: "distinct (map fst d)" using assms(1) by (rule layout_distinct)
  obtain g where g: "isEventFile g" "(g, Json e) \<in> set d"
    using assms(2) set_pendingEvents [OF d] by blast
  then have m: "map_of d g = Some (Json e)" using d by simp
  then have "g = eventId e @ ''.json''" using assms(1) g(1) unfolding layout_map_of by blast
  then show ?thesis using m by simp
qed

lemma pendingEvents_listed:
  assumes "layout d" and "e \<in> set (pendingEvents d)"
  shows "eventId e @ ''.json'' \<in> fst ` set d"
  using pendingEvents_named [OF assms] by (metis map_of_eq_None_iff option.distinct(1))

lemma distinct_ids_pendingEvents:
  "layout d \<Longrightarrow> distinct (map eventId (pendingEvents d))"
proof (induction d rule: pendingEvents.induct)
  case 1
  then show ?case by simp
next
  case (2 f e d)
  have tail: "layout d" using "2.prems" by (rule layout_tail)
  show ?case
  proof (cases "isEventFile f")
    case False
    then show ?thesis using 2 tail by simp
  next
    case True
    have name: "f = eventId e @ ''.json''"
      using "2.prems" True by (simp add: layout_def)
    have "f \<notin> fst ` set d" using "2.prems" by (simp add: layout_def)
    then have "eventId e \<notin> eventId ` set (pendingEvents d)"
      using pendingEvents_listed [OF tail] name by force
    then show ?thesis using 2 tail True by simp
  qed
next
  case (3 f d)
  then show ?case using layout_tail by auto
next
  case (4 f t d)
  then show ?case using layout_tail by auto
qed


section \<open>One poll cycle\<close>

lemma tick_unfold:
  assumes "distinct (map fst (pendingDir w))"
  shows "tick a hs w =
     snd (processAll a hs (cycleEvents (pendingDir w))
            (snd (readEvents (filter isEventFile (readdir (pendingDir w))) w)))"
  by (simp add: tick_def poll_cycle [OF assms] cycleEvents_def)

lemma tick_layout:
  assumes "layout (pendingDir w)"
  shows "layout (pendingDir (tick a hs w))"
  by (simp add: tick_unfold [OF layout_distinct [OF assms]] processAll_layout readEvents_layout assms)

lemma callsOn_append: "callsOn i (xs @ ys) = callsOn i xs @ callsOn i ys"
  by (simp add: callsOn_def calls_append)








section \<open>Many poll cycles\<close>


lemma callsOn_processAll_other:
  assumes "\<forall>e \<in> set es. eventId e \<noteq> i"
  shows "callsOn i (trace (snd (processAll a hs es w))) = callsOn i (trace w)"
proof -
  obtain tr where tr: "trace (snd (processAll a hs es w)) = trace w @ tr"
    and c: "\<forall>(k, e, ok) \<in> set (calls tr). e \<in> set es \<and> dispatches a e"
    using processAll_calls [of a hs es w] by blast
  have "callsOn i tr = []"
    using c assms unfolding callsOn_def filter_empty_conv by fastforce
  then show ?thesis using tr by (simp add: callsOn_append)
qed

lemma processAll_pending_other_ids:
  assumes "\<forall>e \<in> set es. eventId e \<noteq> i"
  shows "map_of (pendingDir (snd (processAll a hs es w))) (i @ ''.json'') = map_of (pendingDir w) (i @ ''.json'')"
  by (rule processAll_pending_keeps) (use assms in blast)

lemma callsOn_processEvent:
  "callsOn (eventId e) (trace (snd (processEvent a hs e w))) =
     callsOn (eventId e) (trace w) @
       (if dispatches a e
        then map (\<lambda>k. (k, e, ((handlersFor hs (eventType e)) ! k) e)) [0..<length (handlersFor hs (eventType e))]
        else [])"
  by (simp add: trace_processEvent callsOn_def calls_append calls_callHandlers)




lemma ticks_layout: "layout (pendingDir w) \<Longrightarrow> layout (pendingDir (ticks n a hs w))"
  by (induction n arbitrary: w) (auto simp: tick_layout)




section \<open>The handler calls and the marks of a loop\<close>

lemma calls_processEvent:
  "calls (trace (snd (processEvent a hs e w))) = calls (trace w) @ handlerCalls a hs e"
  by (simp add: trace_processEvent handlerCalls_def calls_append calls_callHandlers)

lemma calls_processAll_ok:
  "\<forall>e \<in> set es. \<not> rejects a e \<Longrightarrow>
   calls (trace (snd (processAll a hs es w))) = calls (trace w) @ concat (map (handlerCalls a hs) es)"
  by (induction es arbitrary: w)
     (auto simp: processAll_Cons_ok calls_processEvent simp del: processAll.simps(2))


lemma processAll_marks:
  assumes ids: "distinct (map eventId es)"
      and ok: "\<forall>e \<in> set es. \<not> rejects a e"
      and e: "e \<in> set es" and arr: "processedBy e = PBArray ids'" and new: "a \<notin> set ids'"
      and here: "map_of (pendingDir w) (eventId e @ ''.json'') = Some c"
  shows "map_of (pendingDir (snd (processAll a hs es w))) (eventId e @ ''.json'') =
           (if 3 \<le> length (ids' @ [a]) then None
            else Some (Json (e\<lparr>processedBy := PBArray (ids' @ [a])\<rparr>)))"
proof -
  let ?f = "eventId e @ ''.json''"
  obtain pre post where es: "es = pre @ e # post" using e by (meson split_list)
  have pre: "\<forall>x \<in> set pre. eventId x \<noteq> eventId e" and post: "\<forall>x \<in> set post. eventId x \<noteq> eventId e"
    using ids unfolding es by (auto simp: image_iff)
  have okpre: "\<forall>x \<in> set pre. \<not> rejects a x" using ok es by simp
  have nr: "\<not> rejects a e" using ok e by simp
  let ?w2 = "snd (processAll a hs pre w)"
  let ?w3 = "snd (processEvent a hs e ?w2)"
  have "processAll a hs es w = processAll a hs (e # post) ?w2"
    unfolding es using okpre by (rule processAll_append_ok)
  then have run: "processAll a hs es w = processAll a hs post ?w3"
    using nr by (simp add: processAll_Cons_ok del: processAll.simps(2))
  have "map_of (pendingDir ?w2) ?f = Some c"
    using processAll_pending_other_ids [OF pre, of a hs w] here by simp
  then have rf: "readFile (pendingDir ?w2) ?f = Some c" by (simp add: readFile_def)
  have w3: "map_of (pendingDir ?w3) ?f =
              (if 3 \<le> length ids' + 1 then None
               else Some (Json (e\<lparr>processedBy := PBArray (ids' @ [a])\<rparr>)))"
    using processEvent_fresh_pending [OF arr new rf, of hs] by (simp add: readFile_def)
  have "map_of (pendingDir (snd (processAll a hs post ?w3))) ?f = map_of (pendingDir ?w3) ?f"
    by (rule processAll_pending_other_ids [OF post])
  then show ?thesis unfolding run using w3 by simp
qed





text \<open>A cycle that finds \<^verbatim>\<open>null\<close> among its events.\<close>

lemma poll_null:
  assumes "distinct (map fst (pendingDir w))" and "hasNull (pendingDir w)"
  shows "poll a hs w = (Inl TypeError, snd (readEvents (filter isEventFile (readdir (pendingDir w))) w))"
  using assms(2) by (simp add: poll_cycle [OF assms(1)])

lemma calls_processAll_stop:
  assumes "\<forall>e \<in> set pre. \<not> rejects a e" and "rejects a bad"
  shows "calls (trace (snd (processAll a hs (pre @ bad # post) w))) =
           calls (trace w) @ concat (map (handlerCalls a hs) (pre @ [bad]))"
  by (simp add: processAll_stop [OF assms] calls_processEvent calls_processAll_ok [OF assms(1)])

section \<open>The properties of the specification\<close>

subsection \<open>C1: the end-to-end scenario\<close>

text \<open>
  C1. \<^verbatim>\<open>JOB_CREATED\<close> (jobId "job-1", budget 100) is published with an empty
  \<^verbatim>\<open>processedBy\<close>, then the three consumers \<^verbatim>\<open>hiring-1\<close>, \<^verbatim>\<open>worker-1\<close> and
  \<^verbatim>\<open>arbitrator-1\<close> each run one poll cycle. Afterwards the record is absent
  from the pending directory and present in the processed directory, its
  status still \<^verbatim>\<open>pending\<close>. The archived file, however, is the copy
  \<^verbatim>\<open>moveToProcessed\<close> reads back from the pending directory, which the third
  consumer never rewrote: its \<^verbatim>\<open>processedBy\<close> holds the first two consumers
  only, not all three as the specification says.
\<close>

theorem archive_omits_last_consumer:
  "let w1 = snd (publish env0 jobCreated emptyWorld);
       w4 = tick ''arbitrator-1'' Map.empty (tick ''worker-1'' Map.empty (tick ''hiring-1'' Map.empty w1))
   in readFile (pendingDir w1) ''event-1.json'' = Some (Json (jobRecord (PBArray []))) \<and>
      readFile (pendingDir w4) ''event-1.json'' = None \<and>
      readFile (processedDir w4) ''event-1.json'' =
        Some (Json (jobRecord (PBArray [''hiring-1'', ''worker-1'']))) \<and>
      readdir (processedDir w4) = [''event-1.json'']"
  by code_simp

subsection \<open>C2: a record that the consumer has marked is skipped\<close>




subsection \<open>C3: the archival threshold\<close>

text \<open>
  C3. A consumer processes a record it has not processed yet, read from the
  pending file of its id, whose \<^verbatim>\<open>processedBy\<close> has no duplicates. The call
  returns normally. If the \<^verbatim>\<open>processedBy\<close> with the consumer appended has at
  least 3 members, the file is gone from the pending directory and the
  processed directory holds the record as it was in the pending file (so with
  the same payload). If it has fewer than 3 members, the pending file holds
  the record with the consumer appended to \<^verbatim>\<open>processedBy\<close> and every other
  field as before, and nothing is archived under its name.
\<close>

theorem archival_threshold:
  assumes "processedBy event = PBArray ids" and "agentId \<notin> set ids" and "distinct ids"
      and "readFile (pendingDir w) (eventId event @ ''.json'') = Some (Json event)"
  shows "fst (processEvent agentId hs event w) = Inr () \<and>
         (3 \<le> card (set (ids @ [agentId])) \<longrightarrow>
            readFile (pendingDir (snd (processEvent agentId hs event w))) (eventId event @ ''.json'') = None \<and>
            readFile (processedDir (snd (processEvent agentId hs event w))) (eventId event @ ''.json'')
              = Some (Json event)) \<and>
         (card (set (ids @ [agentId])) < 3 \<longrightarrow>
            readFile (pendingDir (snd (processEvent agentId hs event w))) (eventId event @ ''.json'')
              = Some (Json (event\<lparr>processedBy := PBArray (ids @ [agentId])\<rparr>)) \<and>
            readFile (processedDir (snd (processEvent agentId hs event w))) (eventId event @ ''.json'')
              = readFile (processedDir w) (eventId event @ ''.json''))"
proof -
  have "distinct (ids @ [agentId])" using assms(2,3) by simp
  then have card: "card (set (ids @ [agentId])) = length ids + 1"
    using distinct_card [of "ids @ [agentId]"] by simp
  have "\<not> rejects agentId event" using assms(1) by (simp add: rejects_def)
  then have "fst (processEvent agentId hs event w) = Inr ()" by (simp add: fst_processEvent)
  then show ?thesis
    using processEvent_fresh_pending [OF assms(1,2,4), of hs]
          processEvent_fresh_processed [OF assms(1,2,4), of hs] card
    by simp
qed

theorem archival_threshold_witness:
  "processedBy (jobRecord (PBArray [])) = PBArray [] \<and> ''hiring-1'' \<notin> set [] \<and>
   readFile (pendingDir (stored (PBArray []))) ''event-1.json'' = Some (Json (jobRecord (PBArray []))) \<and>
   card (set ([] @ [''hiring-1''])) < 3 \<and>
   readFile (pendingDir (snd (processEvent ''hiring-1'' twoHandlers (jobRecord (PBArray [])) (stored (PBArray [])))))
       ''event-1.json'' = Some (Json (jobRecord (PBArray [''hiring-1'']))) \<and>
   ''arbitrator-1'' \<notin> set [''hiring-1'', ''worker-1''] \<and> distinct [''hiring-1'', ''worker-1''] \<and>
   readFile (pendingDir (stored (PBArray [''hiring-1'', ''worker-1'']))) ''event-1.json''
     = Some (Json (jobRecord (PBArray [''hiring-1'', ''worker-1'']))) \<and>
   3 \<le> card (set ([''hiring-1'', ''worker-1''] @ [''arbitrator-1''])) \<and>
   readFile (pendingDir (snd (processEvent ''arbitrator-1'' twoHandlers
       (jobRecord (PBArray [''hiring-1'', ''worker-1''])) (stored (PBArray [''hiring-1'', ''worker-1''])))))
       ''event-1.json'' = None \<and>
   readFile (processedDir (snd (processEvent ''arbitrator-1'' twoHandlers
       (jobRecord (PBArray [''hiring-1'', ''worker-1''])) (stored (PBArray [''hiring-1'', ''worker-1''])))))
       ''event-1.json'' = Some (Json (jobRecord (PBArray [''hiring-1'', ''worker-1''])))"
proof -
  have id: "\<And>pb. eventId (jobRecord pb) @ ''.json'' = ''event-1.json''" by (simp add: jobRecord_def)
  have pb: "\<And>pb. processedBy (jobRecord pb) = pb" by (simp add: jobRecord_def)
  have up: "\<And>pb pb'. (jobRecord pb)\<lparr>processedBy := pb'\<rparr> = jobRecord pb'" by (simp add: jobRecord_def)
  have rd: "\<And>pb. readFile (pendingDir (stored pb)) (eventId (jobRecord pb) @ ''.json'') = Some (Json (jobRecord pb))"
    by (simp add: stored_def jobRecord_def readFile_def)
  have a2: "''hiring-1'' \<notin> set []" by simp
  have a3: "distinct ([] :: string list)" by simp
  have b2: "''arbitrator-1'' \<notin> set [''hiring-1'', ''worker-1'']" by simp
  have b3: "distinct [''hiring-1'', ''worker-1'']" by simp
  have c1: "card (set ([] @ [''hiring-1''])) < 3" by simp
  have c2: "3 \<le> card (set ([''hiring-1'', ''worker-1''] @ [''arbitrator-1'']))" by simp
  note low = archival_threshold [OF pb a2 a3 rd, of twoHandlers]
  note high = archival_threshold [OF pb b2 b3 rd, of twoHandlers]
  show ?thesis
    using low high c1 c2 b2 b3 rd [of "PBArray []"] rd [of "PBArray [''hiring-1'', ''worker-1'']"]
    unfolding id up pb by simp
qed

subsection \<open>C4: publishing an id twice\<close>

text \<open>
  C4, as the specification states it, fails: the check of \<^verbatim>\<open>publish\<close> looks at
  the pending directory only. Once the record of the end-to-end scenario has
  been archived, publishing the same id again is not a no-op: it creates a new
  pending file, and the store holds two resources under that id, the archived
  one no longer with the content of the first publish.
\<close>

theorem publish_after_archival_counterexample:
  "let w1 = snd (publish env0 jobCreated emptyWorld);
       w4 = tick ''arbitrator-1'' Map.empty (tick ''worker-1'' Map.empty (tick ''hiring-1'' Map.empty w1));
       w5 = snd (publish env0 jobCreated w4)
   in w5 \<noteq> w4 \<and>
      readFile (pendingDir w5) ''event-1.json'' = Some (Json (jobRecord (PBArray []))) \<and>
      readFile (processedDir w5) ''event-1.json'' =
        Some (Json (jobRecord (PBArray [''hiring-1'', ''worker-1''])))"
  by code_simp

text \<open>
  C4, amended. \<^verbatim>\<open>publish\<close> never throws to its caller. Publishing an id whose
  file is in the pending directory leaves the store exactly as it was. So
  after a first publish of a new id with a serializable payload, the pending
  file of that id holds the first publish's content, and any later publish of
  the same id, made while the file is still pending, changes nothing.
\<close>

theorem publish_idempotent_while_pending:
  "fst (publish en ev w) = Inr () \<and>
   (access (pendingDir w) (the (in_id (withDefaults en ev)) @ ''.json'') \<longrightarrow>
      snd (publish en ev w) = w) \<and>
   (\<not> access (pendingDir w) (the (in_id (withDefaults en ev)) @ ''.json'') \<longrightarrow>
    in_payload ev \<noteq> Unserializable \<longrightarrow>
      readFile (pendingDir (snd (publish en ev w))) (the (in_id (withDefaults en ev)) @ ''.json'')
        = stringify (withDefaults en ev) \<and>
      (\<forall>en2 ev2. in_id (withDefaults en2 ev2) = in_id (withDefaults en ev) \<longrightarrow>
         publish en2 ev2 (snd (publish en ev w)) = (Inr (), snd (publish en ev w))))"
proof -
  let ?f = "the (in_id (withDefaults en ev)) @ ''.json''"
  have a: "fst (publish en ev w) = Inr ()" by (rule publish_never_throws)
  have b: "access (pendingDir w) ?f \<longrightarrow> snd (publish en ev w) = w"
    by (simp add: publish_existing)
  have c: "readFile (pendingDir (snd (publish en ev w))) ?f = stringify (withDefaults en ev) \<and>
      (\<forall>en2 ev2. in_id (withDefaults en2 ev2) = in_id (withDefaults en ev) \<longrightarrow>
         publish en2 ev2 (snd (publish en ev w)) = (Inr (), snd (publish en ev w)))"
    if new: "\<not> access (pendingDir w) ?f" and ser: "in_payload ev \<noteq> Unserializable"
  proof -
    obtain c where c: "stringify (withDefaults en ev) = Some c"
      using stringify_Some [OF ser] by blast
    have r: "readFile (pendingDir (snd (publish en ev w))) ?f = Some c"
      by (simp add: readFile_def publish_new(1) [OF new c])
    then have "access (pendingDir (snd (publish en ev w))) ?f"
      by (simp add: access_def readFile_def)
    then show ?thesis using r c by (auto intro: publish_existing)
  qed
  show ?thesis using a b c by blast
qed

theorem publish_idempotent_while_pending_witness:
  "fst (publish env0 jobCreated emptyWorld) = Inr () \<and>
   \<not> access (pendingDir emptyWorld) ''event-1.json'' \<and>
   in_payload jobCreated \<noteq> Unserializable \<and>
   readFile (pendingDir (snd (publish env0 jobCreated emptyWorld))) ''event-1.json''
     = Some (Json (jobRecord (PBArray []))) \<and>
   access (pendingDir (snd (publish env0 jobCreated emptyWorld))) ''event-1.json'' \<and>
   publish env0 (jobCreated\<lparr>in_timestamp := Some 2000\<rparr>) (snd (publish env0 jobCreated emptyWorld))
     = (Inr (), snd (publish env0 jobCreated emptyWorld))"
proof -
  have id: "the (in_id (withDefaults env0 jobCreated)) @ ''.json'' = ''event-1.json''"
    by code_simp
  have id2: "in_id (withDefaults env0 (jobCreated\<lparr>in_timestamp := Some 2000\<rparr>)) = in_id (withDefaults env0 jobCreated)"
    by code_simp
  have new: "\<not> access (pendingDir emptyWorld) ''event-1.json''" by code_simp
  have ser: "in_payload jobCreated \<noteq> Unserializable" by code_simp
  have str: "stringify (withDefaults env0 jobCreated) = Some (Json (jobRecord (PBArray [])))" by code_simp
  have acc: "access (pendingDir (snd (publish env0 jobCreated emptyWorld))) ''event-1.json''" by code_simp
  show ?thesis
    using publish_idempotent_while_pending [of env0 jobCreated emptyWorld] id id2 new ser str acc
    by simp
qed

subsection \<open>C6: a file that does not parse\<close>



subsection \<open>C8: the order of processing\<close>



subsection \<open>C9: a handler that throws\<close>

text \<open>
  C9. A consumer processes a record it has not processed yet, read from the
  pending file of its id, with the handlers \<open>hl\<close> registered for its type.
  Whatever the outcomes of the handlers, so also when some of them throw,
  every handler of \<open>hl\<close> is called on the record, in the order of
  registration; the call returns normally; the pending file holds the record
  with the consumer appended to \<^verbatim>\<open>processedBy\<close>, or, from 3 members on, the
  record is archived; and the loop of the poll cycle goes on with the records
  \<open>rest\<close> that follow. When \<^verbatim>\<open>processEvent\<close> throws on none of these, the
  loop returns normally, having entered \<^verbatim>\<open>processEvent\<close> on the record and
  then on every record of \<open>rest\<close>, in their order, and having made on each
  of them the handler calls that are due on it; and, their ids being pairwise
  different, every record of \<open>rest\<close> that the consumer had not processed and
  that is in the pending directory is afterwards marked with the consumer, or
  archived. The same holds of a whole poll cycle on a pending directory that
  has its layout and no \<^verbatim>\<open>null\<close> in it, and on none of whose records
  \<^verbatim>\<open>processEvent\<close> throws: it returns normally, makes on every record, oldest
  first, the handler calls that are due on it, and leaves every record that
  the consumer had not processed marked with the consumer, or archived.
\<close>

theorem handler_failure_isolation:
  assumes "processedBy event = PBArray ids" and "agentId \<notin> set ids"
      and "hs (eventType event) = Some hl"
      and "readFile (pendingDir w) (eventId event @ ''.json'') = Some (Json event)"
  shows "fst (processEvent agentId hs event w) = Inr () \<and>
         trace (snd (processEvent agentId hs event w)) =
           trace w @ Begin event # map (\<lambda>k. Call k event ((hl ! k) event)) [0..<length hl] \<and>
         (length (ids @ [agentId]) < 3 \<longrightarrow>
            readFile (pendingDir (snd (processEvent agentId hs event w))) (eventId event @ ''.json'')
              = Some (Json (event\<lparr>processedBy := PBArray (ids @ [agentId])\<rparr>))) \<and>
         (3 \<le> length (ids @ [agentId]) \<longrightarrow>
            readFile (pendingDir (snd (processEvent agentId hs event w))) (eventId event @ ''.json'') = None \<and>
            readFile (processedDir (snd (processEvent agentId hs event w))) (eventId event @ ''.json'')
              = Some (Json event)) \<and>
         processAll agentId hs (event # rest) w =
           processAll agentId hs rest (snd (processEvent agentId hs event w)) \<and>
         ((\<forall>e \<in> set rest. \<not> rejects agentId e) \<longrightarrow>
            fst (processAll agentId hs (event # rest) w) = Inr () \<and>
            begun (trace (snd (processAll agentId hs (event # rest) w))) = begun (trace w) @ event # rest \<and>
            calls (trace (snd (processAll agentId hs (event # rest) w))) =
              calls (trace w) @ map (\<lambda>k. (k, event, (hl ! k) event)) [0..<length hl]
                @ concat (map (handlerCalls agentId hs) rest) \<and>
            (distinct (map eventId (event # rest)) \<longrightarrow>
               (\<forall>e \<in> set rest. \<forall>ids' c.
                  processedBy e = PBArray ids' \<longrightarrow> agentId \<notin> set ids' \<longrightarrow>
                  readFile (pendingDir w) (eventId e @ ''.json'') = Some c \<longrightarrow>
                  readFile (pendingDir (snd (processAll agentId hs (event # rest) w))) (eventId e @ ''.json'') =
                    (if 3 \<le> length (ids' @ [agentId]) then None
                     else Some (Json (e\<lparr>processedBy := PBArray (ids' @ [agentId])\<rparr>)))))) \<and>
         (layout (pendingDir w) \<longrightarrow> \<not> hasNull (pendingDir w) \<longrightarrow>
          (\<forall>e \<in> set (pendingEvents (pendingDir w)). \<not> rejects agentId e) \<longrightarrow>
            fst (poll agentId hs w) = Inr () \<and>
            calls (trace (snd (poll agentId hs w))) =
              calls (trace w) @
                concat (map (handlerCalls agentId hs) (sort_key timestamp (pendingEvents (pendingDir w)))) \<and>
            (\<forall>e \<in> set (pendingEvents (pendingDir w)). \<forall>ids'.
               processedBy e = PBArray ids' \<longrightarrow> agentId \<notin> set ids' \<longrightarrow>
               readFile (pendingDir (snd (poll agentId hs w))) (eventId e @ ''.json'') =
                 (if 3 \<le> length (ids' @ [agentId]) then None
                  else Some (Json (e\<lparr>processedBy := PBArray (ids' @ [agentId])\<rparr>)))))"
proof -
  have nr: "\<not> rejects agentId event" using assms(1) by (simp add: rejects_def)
  have d: "dispatches agentId event" using assms(1,2) by (simp add: dispatches_def)
  have a: "fst (processEvent agentId hs event w) = Inr ()" using nr by (simp add: fst_processEvent)
  have b: "trace (snd (processEvent agentId hs event w)) =
           trace w @ Begin event # map (\<lambda>k. Call k event ((hl ! k) event)) [0..<length hl]"
    using d assms(3) by (simp add: trace_processEvent handlersFor_def callHandlers_eq)
  have c: "processAll agentId hs (event # rest) w =
           processAll agentId hs rest (snd (processEvent agentId hs event w))"
    using nr by (rule processAll_Cons_ok)
  have hc: "handlerCalls agentId hs event = map (\<lambda>k. (k, event, (hl ! k) event)) [0..<length hl]"
    using d assms(3) by (simp add: handlerCalls_def handlersFor_def)
  have loop: "fst (processAll agentId hs (event # rest) w) = Inr () \<and>
            begun (trace (snd (processAll agentId hs (event # rest) w))) = begun (trace w) @ event # rest \<and>
            calls (trace (snd (processAll agentId hs (event # rest) w))) =
              calls (trace w) @ map (\<lambda>k. (k, event, (hl ! k) event)) [0..<length hl]
                @ concat (map (handlerCalls agentId hs) rest) \<and>
            (distinct (map eventId (event # rest)) \<longrightarrow>
               (\<forall>e \<in> set rest. \<forall>ids' c.
                  processedBy e = PBArray ids' \<longrightarrow> agentId \<notin> set ids' \<longrightarrow>
                  readFile (pendingDir w) (eventId e @ ''.json'') = Some c \<longrightarrow>
                  readFile (pendingDir (snd (processAll agentId hs (event # rest) w))) (eventId e @ ''.json'') =
                    (if 3 \<le> length (ids' @ [agentId]) then None
                     else Some (Json (e\<lparr>processedBy := PBArray (ids' @ [agentId])\<rparr>)))))"
    if ok: "\<forall>e \<in> set rest. \<not> rejects agentId e"
  proof -
    have all: "\<forall>e \<in> set (event # rest). \<not> rejects agentId e" using ok nr by simp
    have l1: "fst (processAll agentId hs (event # rest) w) = Inr ()"
      using all by (rule processAll_ok)
    have l2: "begun (trace (snd (processAll agentId hs (event # rest) w))) = begun (trace w) @ event # rest"
      using all by (rule begun_processAll_ok)
    have l3: "calls (trace (snd (processAll agentId hs (event # rest) w))) =
              calls (trace w) @ map (\<lambda>k. (k, event, (hl ! k) event)) [0..<length hl]
                @ concat (map (handlerCalls agentId hs) rest)"
      using calls_processAll_ok [OF all, of hs w] hc by simp
    have l4: "readFile (pendingDir (snd (processAll agentId hs (event # rest) w))) (eventId e @ ''.json'') =
                    (if 3 \<le> length (ids' @ [agentId]) then None
                     else Some (Json (e\<lparr>processedBy := PBArray (ids' @ [agentId])\<rparr>)))"
      if "distinct (map eventId (event # rest))" and "e \<in> set rest"
        and "processedBy e = PBArray ids'" and "agentId \<notin> set ids'"
        and "readFile (pendingDir w) (eventId e @ ''.json'') = Some c" for e ids' c
    proof -
      have e: "e \<in> set (event # rest)" using that(2) by simp
      have m: "map_of (pendingDir w) (eventId e @ ''.json'') = Some c"
        using that(5) by (simp add: readFile_def)
      show ?thesis
        unfolding readFile_def by (rule processAll_marks [OF that(1) all e that(3,4) m])
    qed
    show ?thesis using l1 l2 l3 l4 by blast
  qed
  have cycle: "fst (poll agentId hs w) = Inr () \<and>
            calls (trace (snd (poll agentId hs w))) =
              calls (trace w) @
                concat (map (handlerCalls agentId hs) (sort_key timestamp (pendingEvents (pendingDir w)))) \<and>
            (\<forall>e \<in> set (pendingEvents (pendingDir w)). \<forall>ids'.
               processedBy e = PBArray ids' \<longrightarrow> agentId \<notin> set ids' \<longrightarrow>
               readFile (pendingDir (snd (poll agentId hs w))) (eventId e @ ''.json'') =
                 (if 3 \<le> length (ids' @ [agentId]) then None
                  else Some (Json (e\<lparr>processedBy := PBArray (ids' @ [agentId])\<rparr>))))"
    if lay: "layout (pendingDir w)" and nn: "\<not> hasNull (pendingDir w)"
      and ok: "\<forall>e \<in> set (pendingEvents (pendingDir w)). \<not> rejects agentId e"
  proof -
    let ?d = "pendingDir w"
    let ?es = "sort_key timestamp (pendingEvents ?d)"
    let ?w1 = "snd (readEvents (filter isEventFile (readdir ?d)) w)"
    have dist: "distinct (map fst ?d)" using lay by (rule layout_distinct)
    have p: "poll agentId hs w = processAll agentId hs ?es ?w1" by (rule poll_unfold [OF dist nn])
    have all: "\<forall>e \<in> set ?es. \<not> rejects agentId e" using ok by simp
    have ids: "distinct (map eventId ?es)"
      using distinct_ids_pendingEvents [OF lay] by (metis distinct_map distinct_sort set_sort)
    have p1: "fst (poll agentId hs w) = Inr ()" unfolding p using all by (rule processAll_ok)
    have p2: "calls (trace (snd (poll agentId hs w))) =
              calls (trace w) @ concat (map (handlerCalls agentId hs) ?es)"
      unfolding p using calls_processAll_ok [OF all, of hs ?w1] by (simp add: trace_readEvents)
    have p3: "readFile (pendingDir (snd (poll agentId hs w))) (eventId e @ ''.json'') =
                 (if 3 \<le> length (ids' @ [agentId]) then None
                  else Some (Json (e\<lparr>processedBy := PBArray (ids' @ [agentId])\<rparr>)))"
      if e: "e \<in> set (pendingEvents ?d)" and arr: "processedBy e = PBArray ids'"
        and new: "agentId \<notin> set ids'" for e ids'
    proof -
      have "map_of ?d (eventId e @ ''.json'') = Some (Json e)"
        using e by (rule pendingEvents_named [OF lay])
      then have m: "map_of (pendingDir ?w1) (eventId e @ ''.json'') = Some (Json e)"
        by (simp add: readEvents_pending)
      have e': "e \<in> set ?es" using e by simp
      show ?thesis
        unfolding p readFile_def by (rule processAll_marks [OF ids all e' arr new m])
    qed
    show ?thesis using p1 p2 p3 by blast
  qed
  show ?thesis
    using a b c loop cycle processEvent_fresh_pending [OF assms(1,2,4), of hs]
          processEvent_fresh_processed [OF assms(1,2,4), of hs]
    by simp
qed

theorem handler_failure_isolation_witness:
  "processedBy (jobRecord (PBArray [])) = PBArray [] \<and> ''hiring-1'' \<notin> set [] \<and>
   threeHandlers (eventType (jobRecord (PBArray []))) = Some [failing, succeeding] \<and>
   \<not> failing (jobRecord (PBArray [])) \<and>
   readFile (pendingDir (twoStored (PBArray []))) ''event-1.json'' = Some (Json (jobRecord (PBArray []))) \<and>
   fst (processEvent ''hiring-1'' threeHandlers (jobRecord (PBArray [])) (twoStored (PBArray []))) = Inr () \<and>
   trace (snd (processEvent ''hiring-1'' threeHandlers (jobRecord (PBArray [])) (twoStored (PBArray [])))) =
     [Begin (jobRecord (PBArray [])), Call 0 (jobRecord (PBArray [])) False, Call 1 (jobRecord (PBArray [])) True] \<and>
   readFile (pendingDir (snd (processEvent ''hiring-1'' threeHandlers (jobRecord (PBArray [])) (twoStored (PBArray [])))))
       ''event-1.json'' = Some (Json (jobRecord (PBArray [''hiring-1'']))) \<and>
   \<not> rejects ''hiring-1'' (laterRecord (PBArray [])) \<and>
   fst (processAll ''hiring-1'' threeHandlers [jobRecord (PBArray []), laterRecord (PBArray [])]
          (twoStored (PBArray []))) = Inr () \<and>
   begun (trace (snd (processAll ''hiring-1'' threeHandlers [jobRecord (PBArray []), laterRecord (PBArray [])]
          (twoStored (PBArray []))))) = [jobRecord (PBArray []), laterRecord (PBArray [])] \<and>
   calls (trace (snd (processAll ''hiring-1'' threeHandlers [jobRecord (PBArray []), laterRecord (PBArray [])]
          (twoStored (PBArray []))))) =
     [(0, jobRecord (PBArray []), False), (1, jobRecord (PBArray []), True), (0, laterRecord (PBArray []), True)] \<and>
   readFile (pendingDir (snd (processAll ''hiring-1'' threeHandlers [jobRecord (PBArray []), laterRecord (PBArray [])]
          (twoStored (PBArray []))))) ''event-2.json'' = Some (Json (laterRecord (PBArray [''hiring-1'']))) \<and>
   layout (pendingDir (twoStored (PBArray []))) \<and> \<not> hasNull (pendingDir (twoStored (PBArray []))) \<and>
   fst (poll ''hiring-1'' threeHandlers (twoStored (PBArray []))) = Inr () \<and>
   calls (trace (snd (poll ''hiring-1'' threeHandlers (twoStored (PBArray []))))) =
     [(0, jobRecord (PBArray []), False), (1, jobRecord (PBArray []), True), (0, laterRecord (PBArray []), True)] \<and>
   readFile (pendingDir (snd (poll ''hiring-1'' threeHandlers (twoStored (PBArray []))))) ''event-1.json''
     = Some (Json (jobRecord (PBArray [''hiring-1'']))) \<and>
   readFile (pendingDir (snd (poll ''hiring-1'' threeHandlers (twoStored (PBArray []))))) ''event-2.json''
     = Some (Json (laterRecord (PBArray [''hiring-1''])))"
proof -
  let ?job = "jobRecord (PBArray [])"
  let ?later = "laterRecord (PBArray [])"
  let ?w = "twoStored (PBArray [])"
  have h1: "processedBy ?job = PBArray []" by (simp add: jobRecord_def)
  have h2: "''hiring-1'' \<notin> set []" by simp
  have h3: "threeHandlers (eventType ?job) = Some [failing, succeeding]"
    by (simp add: threeHandlers_def twoHandlers_def subscribe_def jobRecord_def)
  have h4: "readFile (pendingDir ?w) (eventId ?job @ ''.json'') = Some (Json ?job)"
    by (simp add: twoStored_def jobRecord_def readFile_def)
  have e1: "eventId ?job @ ''.json'' = ''event-1.json''" "eventId ?later @ ''.json'' = ''event-2.json''"
    by (simp_all add: jobRecord_def laterRecord_def)
  have e2: "?job\<lparr>processedBy := PBArray ([] @ [''hiring-1''])\<rparr> = jobRecord (PBArray [''hiring-1''])"
    "?later\<lparr>processedBy := PBArray ([] @ [''hiring-1''])\<rparr> = laterRecord (PBArray [''hiring-1''])"
    by (simp_all add: jobRecord_def laterRecord_def)
  have e3: "trace ?w = []" by (simp add: twoStored_def)
  have e4: "map (\<lambda>k. Call k ?job (([failing, succeeding] ! k) ?job)) [0..<length [failing, succeeding]]
            = [Call 0 ?job False, Call 1 ?job True]"
    "map (\<lambda>k. (k, ?job, ([failing, succeeding] ! k) ?job)) [0..<length [failing, succeeding]]
            = [(0, ?job, False), (1, ?job, True)]"
    by (simp_all add: failing_def succeeding_def upt_conv_Cons del: upt_Suc)
  have e5: "handlerCalls ''hiring-1'' threeHandlers ?later = [(0, ?later, True)]" by code_simp
  have e6: "handlerCalls ''hiring-1'' threeHandlers ?job = [(0, ?job, False), (1, ?job, True)]" by code_simp
  have r1: "\<forall>e \<in> set [?later]. \<not> rejects ''hiring-1'' e" by (simp add: rejects_def laterRecord_def)
  have r2: "distinct (map eventId [?job, ?later])" by (simp add: jobRecord_def laterRecord_def)
  have r3: "processedBy ?later = PBArray []" by (simp add: laterRecord_def)
  have r4: "readFile (pendingDir ?w) (eventId ?later @ ''.json'') = Some (Json ?later)"
    by (simp add: twoStored_def laterRecord_def readFile_def)
  have l1: "layout (pendingDir ?w)" by code_simp
  have l2: "\<not> hasNull (pendingDir ?w)" by code_simp
  have pe: "pendingEvents (pendingDir ?w) = [?later, ?job]" by code_simp
  have l3: "\<forall>e \<in> set (pendingEvents (pendingDir ?w)). \<not> rejects ''hiring-1'' e"
    unfolding pe by (simp add: rejects_def jobRecord_def laterRecord_def)
  have so: "sort_key timestamp (pendingEvents (pendingDir ?w)) = [?job, ?later]"
    unfolding pe by (simp add: laterRecord_def jobRecord_def)
  note T = handler_failure_isolation
            [where event = ?job and ids = "[]" and agentId = "''hiring-1''"
               and hs = threeHandlers and hl = "[failing, succeeding]" and w = ?w
               and rest = "[?later]", OF h1 h2 h3 h4]
  note T2 = T [THEN conjunct2, THEN conjunct2]
  note T5 = T2 [THEN conjunct2, THEN conjunct2, THEN conjunct2]
  have s1: "fst (processEvent ''hiring-1'' threeHandlers ?job ?w) = Inr ()"
    by (rule T [THEN conjunct1])
  have s2: "trace (snd (processEvent ''hiring-1'' threeHandlers ?job ?w)) = [Begin ?job, Call 0 ?job False, Call 1 ?job True]"
    using T [THEN conjunct2, THEN conjunct1] unfolding e3 e4 by simp
  have s3: "readFile (pendingDir (snd (processEvent ''hiring-1'' threeHandlers ?job ?w))) ''event-1.json''
       = Some (Json (jobRecord (PBArray [''hiring-1''])))"
    using T2 [THEN conjunct1] unfolding e1 e2 by simp
  note L = T5 [THEN conjunct1, THEN mp, OF r1]
  have l1': "fst (processAll ''hiring-1'' threeHandlers [?job, ?later] ?w) = Inr ()"
    by (rule L [THEN conjunct1])
  have l2': "begun (trace (snd (processAll ''hiring-1'' threeHandlers [?job, ?later] ?w))) = [?job, ?later]"
    using L [THEN conjunct2, THEN conjunct1] unfolding e3 by simp
  have l3': "calls (trace (snd (processAll ''hiring-1'' threeHandlers [?job, ?later] ?w))) =
       [(0, ?job, False), (1, ?job, True), (0, ?later, True)]"
    using L [THEN conjunct2, THEN conjunct2, THEN conjunct1] unfolding e3 e4 by (simp add: e5)
  note M = L [THEN conjunct2, THEN conjunct2, THEN conjunct2, THEN mp, OF r2,
              THEN bspec, of ?later, THEN spec, of "[]", THEN spec, of "Json ?later",
              THEN mp, THEN mp, THEN mp, OF _ r3 h2 r4]
  have l4': "readFile (pendingDir (snd (processAll ''hiring-1'' threeHandlers [?job, ?later] ?w))) ''event-2.json''
       = Some (Json (laterRecord (PBArray [''hiring-1''])))"
    using M unfolding e1 e2 by simp
  note C = T5 [THEN conjunct2, THEN mp, THEN mp, THEN mp, OF l1 l2 l3]
  have p1: "fst (poll ''hiring-1'' threeHandlers ?w) = Inr ()"
    by (rule C [THEN conjunct1])
  have p2: "calls (trace (snd (poll ''hiring-1'' threeHandlers ?w))) =
       [(0, ?job, False), (1, ?job, True), (0, ?later, True)]"
    using C [THEN conjunct2, THEN conjunct1] unfolding so e3 by (simp add: e5 e6)
  have in1: "?job \<in> set (pendingEvents (pendingDir ?w))" and in2: "?later \<in> set (pendingEvents (pendingDir ?w))"
    unfolding pe by simp_all
  note C3 = C [THEN conjunct2, THEN conjunct2]
  have p3: "readFile (pendingDir (snd (poll ''hiring-1'' threeHandlers ?w))) ''event-1.json''
       = Some (Json (jobRecord (PBArray [''hiring-1''])))"
    using C3 [THEN bspec, OF in1, THEN spec, of "[]", THEN mp, THEN mp, OF h1 h2] unfolding e1 e2 by simp
  have p4: "readFile (pendingDir (snd (poll ''hiring-1'' threeHandlers ?w))) ''event-2.json''
       = Some (Json (laterRecord (PBArray [''hiring-1''])))"
    using C3 [THEN bspec, OF in2, THEN spec, of "[]", THEN mp, THEN mp, OF r3 h2] unfolding e1 e2 by simp
  have fl: "\<not> failing ?job" by (simp add: failing_def)
  have nr: "\<not> rejects ''hiring-1'' ?later" using r1 by simp
  have h4': "readFile (pendingDir ?w) ''event-1.json'' = Some (Json ?job)" using h4 unfolding e1 .
  show ?thesis
    using h1 h2 h3 fl h4' s1 s2 s3 nr l1' l2' l3' l4' l1 l2 p1 p2 p3 p4 by simp
qed

subsection \<open>C10: a file that parses but is not a well-formed record\<close>

text \<open>
  C10, as the specification states it, fails for one shape of a non-array
  \<^verbatim>\<open>processedBy\<close>: a string has \<^verbatim>\<open>includes\<close> too. When the string contains
  the consumer's id, \<^verbatim>\<open>processEvent\<close> takes the record for processed and
  returns; the cycle does not throw and goes on to the later record.
\<close>

theorem string_processedBy_counterexample:
  "fst (poll ''hiring-1'' twoHandlers (twoStored (PBString ''hiring-1''))) = Inr () \<and>
   begun (trace (snd (poll ''hiring-1'' twoHandlers (twoStored (PBString ''hiring-1'')))))
     = [jobRecord (PBString ''hiring-1''), laterRecord (PBArray [])] \<and>
   readFile (pendingDir (snd (poll ''hiring-1'' twoHandlers (twoStored (PBString ''hiring-1''))))) ''event-2.json''
     = Some (Json (laterRecord (PBArray [''hiring-1'']))) \<and>
   readFile (pendingDir (snd (poll ''hiring-1'' twoHandlers (twoStored (PBString ''hiring-1''))))) ''event-1.json''
     = Some (Json (jobRecord (PBString ''hiring-1'')))"
  by code_simp

text \<open>
  C10, amended. Let the pending directory have its layout.

  If one of its event files has the text \<^verbatim>\<open>null\<close>, the poll cycle throws a
  TypeError before it gets to any record: nothing is added to the trace (no
  record is entered, no handler called), the file with \<^verbatim>\<open>null\<close> is still in
  the pending directory (it is not quarantined), and so is every record,
  unchanged.

  If none has, let \<open>bad\<close> be the first record, in the order of the
  timestamps, on which \<^verbatim>\<open>processEvent\<close> throws: its \<^verbatim>\<open>processedBy\<close> is
  missing or neither an array nor a string, or it is a string that does not
  contain the consumer's id. Then the poll cycle throws a TypeError;
  \<^verbatim>\<open>processEvent\<close> is entered on the records before \<open>bad\<close> and on \<open>bad\<close>
  and on no later one, and the handler calls of the cycle are those due on
  these records; when the field is missing or neither an array nor a string,
  no handler is called on \<open>bad\<close>; when it is a string, every handler
  registered for the type of \<open>bad\<close> is called on it, in the order of
  registration, before the error; \<open>bad\<close> is still in the pending directory,
  unchanged (it is not quarantined), and so is every later record.

  Whatever the order in which the loop of a cycle gets its events, it stops
  in this way at the first one on which \<^verbatim>\<open>processEvent\<close> throws, and that
  call of \<^verbatim>\<open>processEvent\<close> throws a TypeError and leaves both directories as
  they are.

  A record whose \<^verbatim>\<open>processedBy\<close> is a string that contains the consumer's id
  is skipped: \<^verbatim>\<open>processEvent\<close> returns normally on it, without a handler call
  and without touching a file.
\<close>

theorem schema_invalid_record_stops_cycle:
  assumes "layout (pendingDir w)"
  shows "(hasNull (pendingDir w) \<longrightarrow>
            fst (poll agentId hs w) = Inl TypeError \<and>
            trace (snd (poll agentId hs w)) = trace w \<and>
            (\<forall>f. readFile (pendingDir w) f = Some JsonNull \<longrightarrow>
               readFile (pendingDir (snd (poll agentId hs w))) f = Some JsonNull) \<and>
            (\<forall>e \<in> set (pendingEvents (pendingDir w)).
               readFile (pendingDir (snd (poll agentId hs w))) (eventId e @ ''.json'') = Some (Json e))) \<and>
         (\<not> hasNull (pendingDir w) \<longrightarrow>
          sort_key timestamp (pendingEvents (pendingDir w)) = pre @ bad # post \<longrightarrow>
          (\<forall>e \<in> set pre. \<not> rejects agentId e) \<longrightarrow> rejects agentId bad \<longrightarrow>
            fst (poll agentId hs w) = Inl TypeError \<and>
            begun (trace (snd (poll agentId hs w))) = begun (trace w) @ pre @ [bad] \<and>
            calls (trace (snd (poll agentId hs w))) =
              calls (trace w) @ concat (map (handlerCalls agentId hs) (pre @ [bad])) \<and>
            (processedBy bad = PBOther \<longrightarrow>
               callsOn (eventId bad) (trace (snd (poll agentId hs w))) = callsOn (eventId bad) (trace w)) \<and>
            (\<forall>s. processedBy bad = PBString s \<longrightarrow>
               callsOn (eventId bad) (trace (snd (poll agentId hs w))) =
                 callsOn (eventId bad) (trace w) @
                   map (\<lambda>k. (k, bad, ((handlersFor hs (eventType bad)) ! k) bad))
                     [0..<length (handlersFor hs (eventType bad))]) \<and>
            readFile (pendingDir (snd (poll agentId hs w))) (eventId bad @ ''.json'') = Some (Json bad) \<and>
            (\<forall>e \<in> set post.
               readFile (pendingDir (snd (poll agentId hs w))) (eventId e @ ''.json'') = Some (Json e))) \<and>
         ((\<forall>e \<in> set pre'. \<not> rejects agentId e) \<longrightarrow> rejects agentId bad' \<longrightarrow>
            fst (processEvent agentId hs bad' w') = Inl TypeError \<and>
            pendingDir (snd (processEvent agentId hs bad' w')) = pendingDir w' \<and>
            processedDir (snd (processEvent agentId hs bad' w')) = processedDir w' \<and>
            fst (processAll agentId hs (pre' @ bad' # post') w') = Inl TypeError \<and>
            begun (trace (snd (processAll agentId hs (pre' @ bad' # post') w'))) = begun (trace w') @ pre' @ [bad'] \<and>
            calls (trace (snd (processAll agentId hs (pre' @ bad' # post') w'))) =
              calls (trace w') @ concat (map (handlerCalls agentId hs) (pre' @ [bad']))) \<and>
         (processedBy e = PBString s \<longrightarrow> sublist agentId s \<longrightarrow>
            processEvent agentId hs e w' = (Inr (), w'\<lparr>trace := trace w' @ [Begin e]\<rparr>))"
proof -
  let ?d = "pendingDir w"
  let ?fs = "filter isEventFile (readdir ?d)"
  let ?w1 = "snd (readEvents ?fs w)"
  have dist: "distinct (map fst ?d)" using assms(1) by (rule layout_distinct)
  have kept: "map_of (pendingDir ?w1) (eventId e @ ''.json'') = Some (Json e)"
    if "e \<in> set (pendingEvents ?d)" for e
  proof -
    have "map_of ?d (eventId e @ ''.json'') = Some (Json e)"
      using that by (rule pendingEvents_named [OF assms(1)])
    then show ?thesis by (simp add: readEvents_pending)
  qed
  have null: "fst (poll agentId hs w) = Inl TypeError \<and>
            trace (snd (poll agentId hs w)) = trace w \<and>
            (\<forall>f. readFile (pendingDir w) f = Some JsonNull \<longrightarrow>
               readFile (pendingDir (snd (poll agentId hs w))) f = Some JsonNull) \<and>
            (\<forall>e \<in> set (pendingEvents (pendingDir w)).
               readFile (pendingDir (snd (poll agentId hs w))) (eventId e @ ''.json'') = Some (Json e))"
    if hn: "hasNull ?d"
  proof -
    have p: "poll agentId hs w = (Inl TypeError, ?w1)" by (rule poll_null [OF dist hn])
    show ?thesis using kept by (simp add: p trace_readEvents readFile_def readEvents_pending)
  qed
  have stop: "fst (poll agentId hs w) = Inl TypeError \<and>
            begun (trace (snd (poll agentId hs w))) = begun (trace w) @ pre @ [bad] \<and>
            calls (trace (snd (poll agentId hs w))) =
              calls (trace w) @ concat (map (handlerCalls agentId hs) (pre @ [bad])) \<and>
            (processedBy bad = PBOther \<longrightarrow>
               callsOn (eventId bad) (trace (snd (poll agentId hs w))) = callsOn (eventId bad) (trace w)) \<and>
            (\<forall>s. processedBy bad = PBString s \<longrightarrow>
               callsOn (eventId bad) (trace (snd (poll agentId hs w))) =
                 callsOn (eventId bad) (trace w) @
                   map (\<lambda>k. (k, bad, ((handlersFor hs (eventType bad)) ! k) bad))
                     [0..<length (handlersFor hs (eventType bad))]) \<and>
            readFile (pendingDir (snd (poll agentId hs w))) (eventId bad @ ''.json'') = Some (Json bad) \<and>
            (\<forall>e \<in> set post.
               readFile (pendingDir (snd (poll agentId hs w))) (eventId e @ ''.json'') = Some (Json e))"
    if nn: "\<not> hasNull ?d" and order: "sort_key timestamp (pendingEvents ?d) = pre @ bad # post"
      and ok: "\<forall>e \<in> set pre. \<not> rejects agentId e" and rej: "rejects agentId bad"
  proof -
    let ?w2 = "snd (processAll agentId hs pre ?w1)"
    have q: "poll agentId hs w = processAll agentId hs (pre @ bad # post) ?w1"
      unfolding poll_unfold [OF dist nn] order by (rule refl)
    have p: "poll agentId hs w = (Inl TypeError, snd (processEvent agentId hs bad ?w2))"
      unfolding q using ok rej by (rule processAll_stop)
    have a: "fst (poll agentId hs w) = Inl TypeError" by (simp add: p)
    have b: "begun (trace (snd (poll agentId hs w))) = begun (trace w) @ pre @ [bad]"
      by (simp add: p begun_processEvent begun_processAll_ok [OF ok] trace_readEvents)
    have b2: "calls (trace (snd (poll agentId hs w))) =
              calls (trace w) @ concat (map (handlerCalls agentId hs) (pre @ [bad]))"
      unfolding q calls_processAll_stop [OF ok rej] by (simp only: trace_readEvents)
    have members: "set (pre @ bad # post) = set (pendingEvents ?d)"
      using order by (metis set_sort)
    have ids: "distinct (map eventId (pre @ bad # post))"
      using distinct_ids_pendingEvents [OF assms(1)] order
      by (metis distinct_map distinct_sort set_sort)
    have stays: "map_of (pendingDir (snd (poll agentId hs w))) (eventId e @ ''.json'') = Some (Json e)"
      if e: "e \<in> set (bad # post)" for e
    proof -
      have "e \<in> set (pendingEvents ?d)" using e members by auto
      then have r: "map_of (pendingDir ?w1) (eventId e @ ''.json'') = Some (Json e)" by (rule kept)
      have "\<forall>e' \<in> set pre. dispatches agentId e' \<longrightarrow> eventId e' \<noteq> eventId e"
        using ids e by (auto simp: image_iff disjoint_iff)
      then have "map_of (pendingDir ?w2) (eventId e @ ''.json'') = map_of (pendingDir ?w1) (eventId e @ ''.json'')"
        by (rule processAll_pending_keeps)
      then show ?thesis using r by (simp add: p processEvent_rejects_idle [OF rej])
    qed
    have c: "readFile (pendingDir (snd (poll agentId hs w))) (eventId bad @ ''.json'') = Some (Json bad)"
      using stays [of bad] by (simp add: readFile_def)
    have d: "\<forall>e \<in> set post.
              readFile (pendingDir (snd (poll agentId hs w))) (eventId e @ ''.json'') = Some (Json e)"
      using stays by (simp add: readFile_def)
    have "\<forall>e \<in> set pre. eventId e \<noteq> eventId bad" using ids by (auto simp: image_iff)
    then have before: "callsOn (eventId bad) (trace ?w2) = callsOn (eventId bad) (trace w)"
      by (simp add: callsOn_processAll_other trace_readEvents)
    have on_bad: "callsOn (eventId bad) (trace (snd (poll agentId hs w))) =
            callsOn (eventId bad) (trace w) @
              (if dispatches agentId bad
               then map (\<lambda>k. (k, bad, ((handlersFor hs (eventType bad)) ! k) bad))
                      [0..<length (handlersFor hs (eventType bad))]
               else [])"
      using callsOn_processEvent [of bad agentId hs ?w2] before by (simp add: p)
    have e: "callsOn (eventId bad) (trace (snd (poll agentId hs w))) = callsOn (eventId bad) (trace w)"
      if "processedBy bad = PBOther"
      using on_bad that by (simp add: dispatches_def)
    have f: "callsOn (eventId bad) (trace (snd (poll agentId hs w))) =
                 callsOn (eventId bad) (trace w) @
                   map (\<lambda>k. (k, bad, ((handlersFor hs (eventType bad)) ! k) bad))
                     [0..<length (handlersFor hs (eventType bad))]"
      if "processedBy bad = PBString s" for s
      using on_bad that rej by (simp add: dispatches_def rejects_def)
    show ?thesis using a b b2 c d e f by blast
  qed
  have loop: "fst (processEvent agentId hs bad' w') = Inl TypeError \<and>
            pendingDir (snd (processEvent agentId hs bad' w')) = pendingDir w' \<and>
            processedDir (snd (processEvent agentId hs bad' w')) = processedDir w' \<and>
            fst (processAll agentId hs (pre' @ bad' # post') w') = Inl TypeError \<and>
            begun (trace (snd (processAll agentId hs (pre' @ bad' # post') w'))) = begun (trace w') @ pre' @ [bad'] \<and>
            calls (trace (snd (processAll agentId hs (pre' @ bad' # post') w'))) =
              calls (trace w') @ concat (map (handlerCalls agentId hs) (pre' @ [bad']))"
    if ok: "\<forall>e \<in> set pre'. \<not> rejects agentId e" and rej: "rejects agentId bad'"
    using calls_processAll_stop [OF ok rej, of hs post' w'] processEvent_rejects_idle [OF rej, of hs w'] rej
    by (simp add: processAll_stop [OF ok rej] begun_processEvent begun_processAll_ok [OF ok] fst_processEvent)
  have skip: "processEvent agentId hs e w' = (Inr (), w'\<lparr>trace := trace w' @ [Begin e]\<rparr>)"
    if "processedBy e = PBString s" and "sublist agentId s"
    using that by (simp add: processEvent_def)
  show ?thesis using null stop loop skip by blast
qed

theorem schema_invalid_record_stops_cycle_witness:
  "layout (pendingDir withNull) \<and> hasNull (pendingDir withNull) \<and>
   fst (poll ''hiring-1'' twoHandlers withNull) = Inl TypeError \<and>
   trace (snd (poll ''hiring-1'' twoHandlers withNull)) = [] \<and>
   readFile (pendingDir (snd (poll ''hiring-1'' twoHandlers withNull))) ''event-0.json'' = Some JsonNull \<and>
   readFile (pendingDir (snd (poll ''hiring-1'' twoHandlers withNull))) ''event-1.json''
     = Some (Json (jobRecord (PBArray []))) \<and>
   layout (pendingDir (twoStored PBOther)) \<and> \<not> hasNull (pendingDir (twoStored PBOther)) \<and>
   sort_key timestamp (pendingEvents (pendingDir (twoStored PBOther)))
     = [] @ jobRecord PBOther # [laterRecord (PBArray [])] \<and>
   rejects ''hiring-1'' (jobRecord PBOther) \<and>
   fst (poll ''hiring-1'' twoHandlers (twoStored PBOther)) = Inl TypeError \<and>
   begun (trace (snd (poll ''hiring-1'' twoHandlers (twoStored PBOther)))) = [jobRecord PBOther] \<and>
   callsOn ''event-1'' (trace (snd (poll ''hiring-1'' twoHandlers (twoStored PBOther)))) = [] \<and>
   readFile (pendingDir (snd (poll ''hiring-1'' twoHandlers (twoStored PBOther)))) ''event-1.json''
     = Some (Json (jobRecord PBOther)) \<and>
   readFile (pendingDir (snd (poll ''hiring-1'' twoHandlers (twoStored PBOther)))) ''event-2.json''
     = Some (Json (laterRecord (PBArray []))) \<and>
   layout (pendingDir (twoStored (PBString ''worker-1''))) \<and>
   \<not> hasNull (pendingDir (twoStored (PBString ''worker-1''))) \<and>
   sort_key timestamp (pendingEvents (pendingDir (twoStored (PBString ''worker-1''))))
     = [] @ jobRecord (PBString ''worker-1'') # [laterRecord (PBArray [])] \<and>
   rejects ''hiring-1'' (jobRecord (PBString ''worker-1'')) \<and>
   fst (poll ''hiring-1'' twoHandlers (twoStored (PBString ''worker-1''))) = Inl TypeError \<and>
   begun (trace (snd (poll ''hiring-1'' twoHandlers (twoStored (PBString ''worker-1'')))))
     = [jobRecord (PBString ''worker-1'')] \<and>
   callsOn ''event-1'' (trace (snd (poll ''hiring-1'' twoHandlers (twoStored (PBString ''worker-1''))))) =
     [(0, jobRecord (PBString ''worker-1''), False), (1, jobRecord (PBString ''worker-1''), True)] \<and>
   readFile (pendingDir (snd (poll ''hiring-1'' twoHandlers (twoStored (PBString ''worker-1''))))) ''event-1.json''
     = Some (Json (jobRecord (PBString ''worker-1''))) \<and>
   readFile (pendingDir (snd (poll ''hiring-1'' twoHandlers (twoStored (PBString ''worker-1''))))) ''event-2.json''
     = Some (Json (laterRecord (PBArray []))) \<and>
   fst (processEvent ''hiring-1'' twoHandlers (jobRecord PBOther) (twoStored PBOther)) = Inl TypeError \<and>
   fst (processAll ''hiring-1'' twoHandlers [laterRecord (PBArray []), jobRecord PBOther, jobRecord (PBArray [])]
          (twoStored PBOther)) = Inl TypeError \<and>
   begun (trace (snd (processAll ''hiring-1'' twoHandlers
          [laterRecord (PBArray []), jobRecord PBOther, jobRecord (PBArray [])] (twoStored PBOther))))
     = [laterRecord (PBArray []), jobRecord PBOther] \<and>
   sublist ''hiring-1'' ''worker-1,hiring-1'' \<and>
   processEvent ''hiring-1'' twoHandlers (jobRecord (PBString ''worker-1,hiring-1'')) (stored (PBString ''worker-1,hiring-1''))
     = (Inr (), (stored (PBString ''worker-1,hiring-1''))\<lparr>trace := [Begin (jobRecord (PBString ''worker-1,hiring-1''))]\<rparr>)"
proof -
  let ?n = "withNull"
  let ?o = "twoStored PBOther"
  let ?s = "twoStored (PBString ''worker-1'')"
  let ?bo = "jobRecord PBOther"
  let ?bs = "jobRecord (PBString ''worker-1'')"
  let ?later = "laterRecord (PBArray [])"
  let ?k = "jobRecord (PBString ''worker-1,hiring-1'')"
  let ?kw = "stored (PBString ''worker-1,hiring-1'')"
  have n1: "layout (pendingDir ?n)" by code_simp
  have n2: "hasNull (pendingDir ?n)" by code_simp
  have n3: "readFile (pendingDir ?n) ''event-0.json'' = Some JsonNull" by code_simp
  have n4: "jobRecord (PBArray []) \<in> set (pendingEvents (pendingDir ?n))" by code_simp
  have n5: "trace ?n = []" by (simp add: withNull_def)
  have o1: "layout (pendingDir ?o)" by code_simp
  have o2: "\<not> hasNull (pendingDir ?o)" by code_simp
  have o3: "sort_key timestamp (pendingEvents (pendingDir ?o)) = [] @ ?bo # [?later]" by code_simp
  have o4: "rejects ''hiring-1'' ?bo" by code_simp
  have o5: "processedBy ?bo = PBOther" by (simp add: jobRecord_def)
  have s1: "layout (pendingDir ?s)" by code_simp
  have s2: "\<not> hasNull (pendingDir ?s)" by code_simp
  have s3: "sort_key timestamp (pendingEvents (pendingDir ?s)) = [] @ ?bs # [?later]" by code_simp
  have s4: "rejects ''hiring-1'' ?bs" by code_simp
  have s5: "processedBy ?bs = PBString ''worker-1''" by (simp add: jobRecord_def)
  have s6: "map (\<lambda>k. (k, ?bs, ((handlersFor twoHandlers (eventType ?bs)) ! k) ?bs))
              [0..<length (handlersFor twoHandlers (eventType ?bs))]
            = [(0, ?bs, False), (1, ?bs, True)]"
    by code_simp
  have k1: "processedBy ?k = PBString ''worker-1,hiring-1''" by (simp add: jobRecord_def)
  have k2: "sublist ''hiring-1'' ''worker-1,hiring-1''" by code_simp
  have k3: "trace ?kw = []" by (simp add: stored_def)
  have none: "\<forall>e \<in> set []. \<not> rejects ''hiring-1'' e" by simp
  have ev: "eventId ?bo = ''event-1''" "eventId ?bs = ''event-1''" "eventId ?later = ''event-2''"
    "eventId (jobRecord (PBArray [])) = ''event-1''"
    by (simp_all add: jobRecord_def laterRecord_def)
  have tr: "trace ?o = []" "trace ?s = []" by (simp_all add: twoStored_def)
  have c0: "callsOn ''event-1'' [] = []" by (simp add: callsOn_def)
  note N = schema_invalid_record_stops_cycle [where agentId = "''hiring-1''" and hs = twoHandlers, OF n1]
  note O = schema_invalid_record_stops_cycle
             [where agentId = "''hiring-1''" and hs = twoHandlers and pre = "[]" and bad = ?bo
                and post = "[?later]" and pre' = "[?later]" and bad' = ?bo
                and post' = "[jobRecord (PBArray [])]" and w' = ?o, OF o1]
  note S = schema_invalid_record_stops_cycle
             [where agentId = "''hiring-1''" and hs = twoHandlers and pre = "[]" and bad = ?bs
                and post = "[?later]" and e = ?k and s = "''worker-1,hiring-1''" and w' = ?kw, OF s1]
  note N1 = N [THEN conjunct1, THEN mp, OF n2]
  have rn1: "fst (poll ''hiring-1'' twoHandlers ?n) = Inl TypeError"
    by (rule N1 [THEN conjunct1])
  have rn2: "trace (snd (poll ''hiring-1'' twoHandlers ?n)) = []"
    using N1 [THEN conjunct2, THEN conjunct1] unfolding n5 .
  have rn3: "readFile (pendingDir (snd (poll ''hiring-1'' twoHandlers ?n))) ''event-0.json'' = Some JsonNull"
    by (rule N1 [THEN conjunct2, THEN conjunct2, THEN conjunct1, THEN spec, THEN mp, OF n3])
  have rn4: "readFile (pendingDir (snd (poll ''hiring-1'' twoHandlers ?n))) ''event-1.json''
              = Some (Json (jobRecord (PBArray [])))"
    using N1 [THEN conjunct2, THEN conjunct2, THEN conjunct2, THEN bspec, OF n4] unfolding ev by simp
  note O2 = O [THEN conjunct2, THEN conjunct1, THEN mp, THEN mp, THEN mp, THEN mp, OF o2 o3 none o4]
  have ro1: "fst (poll ''hiring-1'' twoHandlers ?o) = Inl TypeError"
    by (rule O2 [THEN conjunct1])
  have ro2: "begun (trace (snd (poll ''hiring-1'' twoHandlers ?o))) = [?bo]"
    using O2 [THEN conjunct2, THEN conjunct1] unfolding tr by simp
  note O4 = O2 [THEN conjunct2, THEN conjunct2, THEN conjunct2]
  have ro3: "callsOn ''event-1'' (trace (snd (poll ''hiring-1'' twoHandlers ?o))) = []"
    using O4 [THEN conjunct1, THEN mp, OF o5] unfolding ev tr c0 .
  note O6 = O4 [THEN conjunct2, THEN conjunct2]
  have ro4: "readFile (pendingDir (snd (poll ''hiring-1'' twoHandlers ?o))) ''event-1.json'' = Some (Json ?bo)"
    using O6 [THEN conjunct1] unfolding ev by simp
  have ro5: "readFile (pendingDir (snd (poll ''hiring-1'' twoHandlers ?o))) ''event-2.json'' = Some (Json ?later)"
    using O6 [THEN conjunct2, THEN bspec, of ?later] unfolding ev by simp
  have ok1: "\<forall>e \<in> set [?later]. \<not> rejects ''hiring-1'' e" by (simp add: rejects_def laterRecord_def)
  note O3 = O [THEN conjunct2, THEN conjunct2, THEN conjunct1, THEN mp, THEN mp, OF ok1 o4]
  have rl0: "fst (processEvent ''hiring-1'' twoHandlers ?bo ?o) = Inl TypeError"
    by (rule O3 [THEN conjunct1])
  note O3' = O3 [THEN conjunct2, THEN conjunct2, THEN conjunct2]
  have rl1: "fst (processAll ''hiring-1'' twoHandlers [?later, ?bo, jobRecord (PBArray [])] ?o) = Inl TypeError"
    using O3' [THEN conjunct1] by simp
  have rl2: "begun (trace (snd (processAll ''hiring-1'' twoHandlers [?later, ?bo, jobRecord (PBArray [])] ?o)))
               = [?later, ?bo]"
    using O3' [THEN conjunct2, THEN conjunct1] unfolding tr by simp
  note S2 = S [THEN conjunct2, THEN conjunct1, THEN mp, THEN mp, THEN mp, THEN mp, OF s2 s3 none s4]
  have rs1: "fst (poll ''hiring-1'' twoHandlers ?s) = Inl TypeError"
    by (rule S2 [THEN conjunct1])
  have rs2: "begun (trace (snd (poll ''hiring-1'' twoHandlers ?s))) = [?bs]"
    using S2 [THEN conjunct2, THEN conjunct1] unfolding tr by simp
  note S4 = S2 [THEN conjunct2, THEN conjunct2, THEN conjunct2]
  have rs3: "callsOn ''event-1'' (trace (snd (poll ''hiring-1'' twoHandlers ?s))) =
               [(0, ?bs, False), (1, ?bs, True)]"
    using S4 [THEN conjunct2, THEN conjunct1, THEN spec, THEN mp, OF s5] unfolding s6 unfolding ev tr c0 by simp
  note S6 = S4 [THEN conjunct2, THEN conjunct2]
  have rs4: "readFile (pendingDir (snd (poll ''hiring-1'' twoHandlers ?s))) ''event-1.json'' = Some (Json ?bs)"
    using S6 [THEN conjunct1] unfolding ev by simp
  have rs5: "readFile (pendingDir (snd (poll ''hiring-1'' twoHandlers ?s))) ''event-2.json'' = Some (Json ?later)"
    using S6 [THEN conjunct2, THEN bspec, of ?later] unfolding ev by simp
  have rk: "processEvent ''hiring-1'' twoHandlers ?k ?kw = (Inr (), ?kw\<lparr>trace := [Begin ?k]\<rparr>)"
    using S [THEN conjunct2, THEN conjunct2, THEN conjunct2, THEN mp, THEN mp, OF k1 k2] unfolding k3 by simp
  have o3': "sort_key timestamp (pendingEvents (pendingDir ?o)) = [?bo, ?later]" using o3 by simp
  have s3': "sort_key timestamp (pendingEvents (pendingDir ?s)) = [?bs, ?later]" using s3 by simp
  show ?thesis
    using n1 n2 rn1 rn2 rn3 rn4 o1 o2 o3' o4 ro1 ro2 ro3 ro4 ro5 s1 s2 s3' s4 rs1 rs2 rs3 rs4 rs5 rl0 rl1 rl2 k2 rk
    by simp
qed

end
